theory Spec2Isabelle
  imports
    Main
    "HOL-Library.AList"
    "HOL-Library.Char_ord"
    "HOL-Library.List_Lexorder"
    "HOL-Library.Monad_Syntax"
begin

section \<open>The world the program runs in\<close>

text \<open>
  Go errors are values. The constructors name the failures the program can meet: a path
  that does not exist, a directory listing asked of a file, a file or directory that
  cannot be read, image data that no registered decoder recognises
  (\<^verbatim>\<open>image.ErrFormat\<close>), a working directory that cannot be determined
  (\<^verbatim>\<open>filepath.Abs\<close>), and a failed write of the output file.
\<close>

datatype error = ErrNotExist | ErrNotDir | ErrPermission | ErrFormat | ErrGetwd | ErrWrite

text \<open>
  The images directory is a finite tree. A regular file carries what
  \<^verbatim>\<open>os.Open\<close> followed by \<^verbatim>\<open>image.DecodeConfig\<close> finds in it: it cannot be opened,
  it opens but its header is not a PNG, JPEG or GIF header (the three decoders votter.go
  registers; this is also what a BMP file is), or it is an image of some width and
  height. A directory lists its entries in the order \<^verbatim>\<open>ioutil.ReadDir\<close> and
  \<^verbatim>\<open>filepath.Walk\<close> return them (sorted by name); \<open>DirErr\<close> is a directory whose
  listing fails. Names are directory-entry names: they are what \<^verbatim>\<open>file.Name()\<close> and
  \<^verbatim>\<open>filepath.Base\<close> return for the entry.
\<close>

datatype fcontent = NoAccess | Undecodable | Image int int

datatype fsnode = File string fcontent | Dir string "fsnode list" | DirErr string

fun name_of :: "fsnode \<Rightarrow> string" where
  "name_of (File n c) = n"
| "name_of (Dir n cs) = n"
| "name_of (DirErr n) = n"

text \<open>
  What the run takes from outside the program:
  \<^item> \<open>fs p\<close>: the tree found at the path \<open>p\<close> given on the command line, if any;
  \<^item> \<open>fp_Join\<close>, \<open>fp_Abs\<close>, \<open>fp_ToSlash\<close>, \<open>fp_Dir\<close>: the functions of
    \<^verbatim>\<open>path/filepath\<close> whose results depend on the host platform and working directory;
  \<^item> \<open>unicode_lower\<close>: what the case tables of package \<^verbatim>\<open>unicode\<close> make of a
    run of non-ASCII bytes when \<^verbatim>\<open>strings.ToLower\<close> lowers it (see below);
  \<^item> \<open>uuid n\<close>: the \<open>n\<close>-th identifier \<^verbatim>\<open>uuid.New().String()\<close> returns during the run;
  \<^item> \<open>range_seed k\<close>: the choices that fix the order in which the \<open>k\<close>-th
    \<^verbatim>\<open>range\<close> loop over a Go map visits the map's entries (Go leaves it unspecified);
  \<^item> \<open>writeFile p\<close>: the error \<^verbatim>\<open>ioutil.WriteFile\<close> returns for path \<open>p\<close>, if any.
\<close>

record env =
  fs :: "string \<Rightarrow> fsnode option"
  fp_Join :: "string list \<Rightarrow> string"
  fp_Abs :: "string \<Rightarrow> error + string"
  fp_ToSlash :: "string \<Rightarrow> string"
  fp_Dir :: "string \<Rightarrow> string"
  unicode_lower :: "string \<Rightarrow> string"
  uuid :: "nat \<Rightarrow> string"
  range_seed :: "nat \<Rightarrow> nat list"
  writeFile :: "string \<Rightarrow> error option"

section \<open>Go maps\<close>

text \<open>
  A Go map is an association list with distinct keys: \<^verbatim>\<open>m[k] = v\<close> is
  \<^const>\<open>AList.update\<close>, which replaces the value of a key that is present and adds the
  key otherwise; \<^verbatim>\<open>len(m)\<close> is the length of the list.
\<close>

type_synonym ('k, 'v) gomap = "('k \<times> 'v) list"

text \<open>
  \<^verbatim>\<open>for k, v := range m\<close> visits every entry once, in an order Go does not specify.
  \<open>range_order cs m\<close> is the order fixed by the choices \<open>cs\<close>: each choice picks the
  next entry among those not yet visited. Every order arises from some \<open>cs\<close>.
\<close>

fun range_order :: "nat list \<Rightarrow> 'a list \<Rightarrow> 'a list" where
  "range_order cs [] = []"
| "range_order [] (x # xs) = x # xs"
| "range_order (c # cs) (x # xs) =
     (let i = c mod length (x # xs)
      in (x # xs) ! i # range_order cs (take i (x # xs) @ drop (Suc i) (x # xs)))"

section \<open>The VoTT document (votter.go, lines 32-99)\<close>

record VideoSettings =
  FrameExtractionRate :: int

record Tag =
  Name :: string
  Color :: string

record ActiveLearningSettings =
  AutoDetect :: bool
  PredictTag :: bool
  ModelPathType :: string

record Size =
  Width :: int
  Height :: int

record Asset =
  Format :: string
  ID :: string
  Name :: string
  Path :: string
  Size :: Size
  State :: int
  Type :: int
  Label :: string

record BoundingBox =
  Height :: int
  Width :: int
  Left :: int
  Top :: int

record Point =
  X :: int
  Y :: int

record Region =
  ID :: string
  Type :: string
  Tags :: "string list"
  BoundingBox :: BoundingBox
  Points :: "Point list"

record AssetDetail =
  Asset :: Asset
  Regions :: "Region list"
  Version :: string

record VottJsonModel =
  Name :: string
  SecurityToken :: string
  VideoSettings :: VideoSettings
  Tags :: "Tag list"
  ID :: string
  ActiveLearningSettings :: ActiveLearningSettings
  Version :: string
  LastVisitedAssetID :: string
  Assets :: "(string, AssetDetail) gomap"

section \<open>Constants (votter.go, lines 24-30)\<close>

definition Version :: string where
  "Version = ''1''"

definition OptionalPathToImagesDefault :: string where
  "OptionalPathToImagesDefault = ''.''"

definition OptionalAnnotationsFilenameDefault :: string where
  "OptionalAnnotationsFilenameDefault = ''vott-coco-annotations.json''"

definition ExitSuccesful :: int where
  "ExitSuccesful = 0"

definition ExitImagesFolderNotFound :: int where
  "ExitImagesFolderNotFound = 1"

definition ExitImagesFolderEmpty :: int where
  "ExitImagesFolderEmpty = 2"

definition ExitAnnotationsFolderNotFound :: int where
  "ExitAnnotationsFolderNotFound = 3"

section \<open>Strings as bytes: UTF-8\<close>

text \<open>
  A Go string is a sequence of bytes, here of \<^typ>\<open>char\<close>. A byte below 128 is an ASCII
  character and always a rune of its own.
\<close>

definition is_ascii :: "char \<Rightarrow> bool" where
  "is_ascii c \<longleftrightarrow> of_char c < (128::nat)"

text \<open>
  \<^verbatim>\<open>utf8.DecodeRuneInString\<close>, as far as the width of the rune at the head of the string
  goes: the first byte fixes the size of the encoding and the range the second byte must
  lie in, the further bytes are continuation bytes; \<open>0\<close> stands for a head that is not
  the encoding of a rune (Go then returns \<^verbatim>\<open>RuneError\<close> with width 1).
\<close>

definition rune_size :: "nat \<Rightarrow> nat" where
  "rune_size b0 =
     (if b0 < 128 then 1
      else if 194 \<le> b0 \<and> b0 \<le> 223 then 2
      else if 224 \<le> b0 \<and> b0 \<le> 239 then 3
      else if 240 \<le> b0 \<and> b0 \<le> 244 then 4
      else 0)"

definition second_lo :: "nat \<Rightarrow> nat" where
  "second_lo b0 = (if b0 = 224 then 160 else if b0 = 240 then 144 else 128)"

definition second_hi :: "nat \<Rightarrow> nat" where
  "second_hi b0 = (if b0 = 237 then 159 else if b0 = 244 then 143 else 191)"

definition continuation :: "char \<Rightarrow> bool" where
  "continuation c \<longleftrightarrow> 128 \<le> (of_char c :: nat) \<and> (of_char c :: nat) \<le> 191"

fun rune_width :: "string \<Rightarrow> nat" where
  "rune_width [] = 0"
| "rune_width (c # cs) =
     (let sz = rune_size (of_char c)
      in if sz \<le> 1 then sz
         else if length (c # cs) < sz then 0
         else if of_char (cs ! 0) < second_lo (of_char c) \<or>
                 second_hi (of_char c) < (of_char (cs ! 0) :: nat) then 0
         else if sz \<le> 2 then 2
         else if \<not> continuation (cs ! 1) then 0
         else if sz \<le> 3 then 3
         else if \<not> continuation (cs ! 2) then 0
         else 4)"

text \<open>
  The string a JSON text holds for a Go string: \<^verbatim>\<open>encoding/json\<close> writes the runes of
  the string and replaces every byte that is not part of the encoding of a rune by
  U+FFFD, whose encoding is the three bytes \<open>EF BF BD\<close>. \<open>json_string_from k\<close> has
  \<open>k\<close> bytes of the current rune still to copy. A string is valid UTF-8 when it is
  written unchanged.
\<close>

fun json_string_from :: "nat \<Rightarrow> string \<Rightarrow> string" where
  "json_string_from k [] = []"
| "json_string_from (Suc k) (c # cs) = c # json_string_from k cs"
| "json_string_from 0 (c # cs) =
     (case rune_width (c # cs) of
        0 \<Rightarrow> [CHR 0xEF, CHR 0xBF, CHR 0xBD] @ json_string_from 0 cs
      | Suc n \<Rightarrow> c # json_string_from n cs)"

definition json_string :: "string \<Rightarrow> string" where
  "json_string s = json_string_from 0 s"

definition valid_utf8 :: "string \<Rightarrow> bool" where
  "valid_utf8 s \<longleftrightarrow> json_string s = s"

section \<open>encoding/json on the document types\<close>

text \<open>
  A JSON value. \<^verbatim>\<open>json.MarshalIndent\<close> turns a Go value into the text of one JSON
  value and \<^verbatim>\<open>json.Unmarshal\<close> reads such a text back; the text itself
  (indentation, escapes) is not modelled, the written data is the JSON value the text
  denotes. An object is the list of its members as written, so a key can repeat.
\<close>

datatype json =
    JNull
  | JBool bool
  | JNum int
  | JStr string
  | JArr "json list"
  | JObj "(string \<times> json) list"

text \<open>
  Marshalling a struct writes its exported fields in declaration order, each under the
  name of its \<^verbatim>\<open>json:"..."\<close> tag, and under the Go field name when the field has no
  tag. Every field of the document types has a tag except \<^verbatim>\<open>Label string\<close> of
  \<^verbatim>\<open>Asset\<close> (line 73). A non-nil slice is an array; a map is an object whose members
  are in the order of the sorted keys of the map. Every string, a key of a map too, is
  written as \<^const>\<open>json_string\<close> has it.
\<close>

definition marshal_VideoSettings :: "VideoSettings \<Rightarrow> json" where
  "marshal_VideoSettings v = JObj [(''frameExtractionRate'', JNum (FrameExtractionRate v))]"

definition marshal_Tag :: "Tag \<Rightarrow> json" where
  "marshal_Tag t =
     JObj [(''name'', JStr (json_string (Tag.Name t))),
           (''color'', JStr (json_string (Color t)))]"

definition marshal_ActiveLearningSettings :: "ActiveLearningSettings \<Rightarrow> json" where
  "marshal_ActiveLearningSettings s =
     JObj [(''autoDetect'', JBool (AutoDetect s)),
           (''predictTag'', JBool (PredictTag s)),
           (''modelPathType'', JStr (json_string (ModelPathType s)))]"

definition marshal_Size :: "Size \<Rightarrow> json" where
  "marshal_Size s = JObj [(''width'', JNum (Size.Width s)), (''height'', JNum (Size.Height s))]"

definition marshal_Asset :: "Asset \<Rightarrow> json" where
  "marshal_Asset a =
     JObj [(''format'', JStr (json_string (Format a))),
           (''id'', JStr (json_string (Asset.ID a))),
           (''name'', JStr (json_string (Asset.Name a))),
           (''path'', JStr (json_string (Path a))),
           (''size'', marshal_Size (Size a)),
           (''state'', JNum (State a)),
           (''type'', JNum (Asset.Type a)),
           (''Label'', JStr (json_string (Label a)))]"

definition marshal_BoundingBox :: "BoundingBox \<Rightarrow> json" where
  "marshal_BoundingBox b =
     JObj [(''height'', JNum (BoundingBox.Height b)),
           (''width'', JNum (BoundingBox.Width b)),
           (''left'', JNum (Left b)),
           (''top'', JNum (Top b))]"

definition marshal_Point :: "Point \<Rightarrow> json" where
  "marshal_Point p = JObj [(''x'', JNum (X p)), (''y'', JNum (Y p))]"

definition marshal_Region :: "Region \<Rightarrow> json" where
  "marshal_Region r =
     JObj [(''id'', JStr (json_string (Region.ID r))),
           (''type'', JStr (json_string (Region.Type r))),
           (''tags'', JArr (map (\<lambda>t. JStr (json_string t)) (Region.Tags r))),
           (''boundingBox'', marshal_BoundingBox (BoundingBox r)),
           (''points'', JArr (map marshal_Point (Points r)))]"

definition marshal_AssetDetail :: "AssetDetail \<Rightarrow> json" where
  "marshal_AssetDetail d =
     JObj [(''asset'', marshal_Asset (Asset d)),
           (''regions'', JArr (map marshal_Region (Regions d))),
           (''version'', JStr (json_string (AssetDetail.Version d)))]"

definition marshal_Assets :: "(string, AssetDetail) gomap \<Rightarrow> json" where
  "marshal_Assets m =
     JObj (map (\<lambda>(k, d). (json_string k, marshal_AssetDetail d)) (sort_key fst m))"

definition marshal_VottJsonModel :: "VottJsonModel \<Rightarrow> json" where
  "marshal_VottJsonModel m =
     JObj [(''name'', JStr (json_string (VottJsonModel.Name m))),
           (''securityToken'', JStr (json_string (SecurityToken m))),
           (''videoSettings'', marshal_VideoSettings (VideoSettings m)),
           (''tags'', JArr (map marshal_Tag (VottJsonModel.Tags m))),
           (''id'', JStr (json_string (VottJsonModel.ID m))),
           (''activeLearningSettings'', marshal_ActiveLearningSettings (ActiveLearningSettings m)),
           (''version'', JStr (json_string (VottJsonModel.Version m))),
           (''lastVisitedAssetId'', JStr (json_string (LastVisitedAssetID m))),
           (''assets'', marshal_Assets (Assets m))]"

text \<open>
  Unmarshalling an object into a struct gives each field the value of the member with
  the field's key (the last one, if the key repeats), leaves a field with no member or a
  \<^verbatim>\<open>null\<close> member at its zero value, ignores members no field answers to, and fails on
  a member of the wrong JSON type. An object read into a map stores its members in turn.
\<close>

definition member :: "(string \<times> json) list \<Rightarrow> string \<Rightarrow> json" where
  "member kvs k = (case map_of (rev kvs) k of None \<Rightarrow> JNull | Some v \<Rightarrow> v)"

fun unmarshal_string :: "json \<Rightarrow> string option" where
  "unmarshal_string JNull = Some []"
| "unmarshal_string (JStr s) = Some s"
| "unmarshal_string _ = None"

fun unmarshal_int :: "json \<Rightarrow> int option" where
  "unmarshal_int JNull = Some 0"
| "unmarshal_int (JNum n) = Some n"
| "unmarshal_int _ = None"

fun unmarshal_bool :: "json \<Rightarrow> bool option" where
  "unmarshal_bool JNull = Some False"
| "unmarshal_bool (JBool b) = Some b"
| "unmarshal_bool _ = None"

fun unmarshal_slice :: "(json \<Rightarrow> 'a option) \<Rightarrow> json \<Rightarrow> 'a list option" where
  "unmarshal_slice f JNull = Some []"
| "unmarshal_slice f (JArr xs) = those (map f xs)"
| "unmarshal_slice f _ = None"

fun unmarshal_VideoSettings :: "json \<Rightarrow> VideoSettings option" where
  "unmarshal_VideoSettings JNull = Some \<lparr>FrameExtractionRate = 0\<rparr>"
| "unmarshal_VideoSettings (JObj kvs) =
     do { r \<leftarrow> unmarshal_int (member kvs ''frameExtractionRate'');
          Some \<lparr>FrameExtractionRate = r\<rparr> }"
| "unmarshal_VideoSettings _ = None"

fun unmarshal_Tag :: "json \<Rightarrow> Tag option" where
  "unmarshal_Tag JNull = Some \<lparr>Tag.Name = [], Color = []\<rparr>"
| "unmarshal_Tag (JObj kvs) =
     do { n \<leftarrow> unmarshal_string (member kvs ''name'');
          c \<leftarrow> unmarshal_string (member kvs ''color'');
          Some \<lparr>Tag.Name = n, Color = c\<rparr> }"
| "unmarshal_Tag _ = None"

fun unmarshal_ActiveLearningSettings :: "json \<Rightarrow> ActiveLearningSettings option" where
  "unmarshal_ActiveLearningSettings JNull =
     Some \<lparr>AutoDetect = False, PredictTag = False, ModelPathType = []\<rparr>"
| "unmarshal_ActiveLearningSettings (JObj kvs) =
     do { a \<leftarrow> unmarshal_bool (member kvs ''autoDetect'');
          p \<leftarrow> unmarshal_bool (member kvs ''predictTag'');
          m \<leftarrow> unmarshal_string (member kvs ''modelPathType'');
          Some \<lparr>AutoDetect = a, PredictTag = p, ModelPathType = m\<rparr> }"
| "unmarshal_ActiveLearningSettings _ = None"

fun unmarshal_Size :: "json \<Rightarrow> Size option" where
  "unmarshal_Size JNull = Some \<lparr>Size.Width = 0, Size.Height = 0\<rparr>"
| "unmarshal_Size (JObj kvs) =
     do { w \<leftarrow> unmarshal_int (member kvs ''width'');
          h \<leftarrow> unmarshal_int (member kvs ''height'');
          Some \<lparr>Size.Width = w, Size.Height = h\<rparr> }"
| "unmarshal_Size _ = None"

definition zero_Asset :: Asset where
  "zero_Asset = \<lparr>Format = [], Asset.ID = [], Asset.Name = [], Path = [],
     Size = \<lparr>Size.Width = 0, Size.Height = 0\<rparr>, State = 0, Asset.Type = 0, Label = []\<rparr>"

fun unmarshal_Asset :: "json \<Rightarrow> Asset option" where
  "unmarshal_Asset JNull = Some zero_Asset"
| "unmarshal_Asset (JObj kvs) =
     do { f \<leftarrow> unmarshal_string (member kvs ''format'');
          i \<leftarrow> unmarshal_string (member kvs ''id'');
          n \<leftarrow> unmarshal_string (member kvs ''name'');
          p \<leftarrow> unmarshal_string (member kvs ''path'');
          s \<leftarrow> unmarshal_Size (member kvs ''size'');
          st \<leftarrow> unmarshal_int (member kvs ''state'');
          ty \<leftarrow> unmarshal_int (member kvs ''type'');
          l \<leftarrow> unmarshal_string (member kvs ''Label'');
          Some \<lparr>Format = f, Asset.ID = i, Asset.Name = n, Path = p, Size = s,
                State = st, Asset.Type = ty, Label = l\<rparr> }"
| "unmarshal_Asset _ = None"

fun unmarshal_BoundingBox :: "json \<Rightarrow> BoundingBox option" where
  "unmarshal_BoundingBox JNull =
     Some \<lparr>BoundingBox.Height = 0, BoundingBox.Width = 0, Left = 0, Top = 0\<rparr>"
| "unmarshal_BoundingBox (JObj kvs) =
     do { h \<leftarrow> unmarshal_int (member kvs ''height'');
          w \<leftarrow> unmarshal_int (member kvs ''width'');
          l \<leftarrow> unmarshal_int (member kvs ''left'');
          t \<leftarrow> unmarshal_int (member kvs ''top'');
          Some \<lparr>BoundingBox.Height = h, BoundingBox.Width = w, Left = l, Top = t\<rparr> }"
| "unmarshal_BoundingBox _ = None"

fun unmarshal_Point :: "json \<Rightarrow> Point option" where
  "unmarshal_Point JNull = Some \<lparr>X = 0, Y = 0\<rparr>"
| "unmarshal_Point (JObj kvs) =
     do { x \<leftarrow> unmarshal_int (member kvs ''x'');
          y \<leftarrow> unmarshal_int (member kvs ''y'');
          Some \<lparr>X = x, Y = y\<rparr> }"
| "unmarshal_Point _ = None"

fun unmarshal_Region :: "json \<Rightarrow> Region option" where
  "unmarshal_Region JNull =
     Some \<lparr>Region.ID = [], Region.Type = [], Region.Tags = [],
       BoundingBox = \<lparr>BoundingBox.Height = 0, BoundingBox.Width = 0, Left = 0, Top = 0\<rparr>,
       Points = []\<rparr>"
| "unmarshal_Region (JObj kvs) =
     do { i \<leftarrow> unmarshal_string (member kvs ''id'');
          t \<leftarrow> unmarshal_string (member kvs ''type'');
          ts \<leftarrow> unmarshal_slice unmarshal_string (member kvs ''tags'');
          b \<leftarrow> unmarshal_BoundingBox (member kvs ''boundingBox'');
          ps \<leftarrow> unmarshal_slice unmarshal_Point (member kvs ''points'');
          Some \<lparr>Region.ID = i, Region.Type = t, Region.Tags = ts, BoundingBox = b,
                Points = ps\<rparr> }"
| "unmarshal_Region _ = None"

fun unmarshal_AssetDetail :: "json \<Rightarrow> AssetDetail option" where
  "unmarshal_AssetDetail JNull =
     Some \<lparr>Asset = zero_Asset, Regions = [], AssetDetail.Version = []\<rparr>"
| "unmarshal_AssetDetail (JObj kvs) =
     do { a \<leftarrow> unmarshal_Asset (member kvs ''asset'');
          rs \<leftarrow> unmarshal_slice unmarshal_Region (member kvs ''regions'');
          v \<leftarrow> unmarshal_string (member kvs ''version'');
          Some \<lparr>Asset = a, Regions = rs, AssetDetail.Version = v\<rparr> }"
| "unmarshal_AssetDetail _ = None"

fun unmarshal_members ::
  "(string \<times> json) list \<Rightarrow> (string, AssetDetail) gomap \<Rightarrow> (string, AssetDetail) gomap option"
where
  "unmarshal_members [] m = Some m"
| "unmarshal_members ((k, v) # kvs) m =
     (case unmarshal_AssetDetail v of
        None \<Rightarrow> None
      | Some d \<Rightarrow> unmarshal_members kvs (AList.update k d m))"

fun unmarshal_Assets :: "json \<Rightarrow> (string, AssetDetail) gomap option" where
  "unmarshal_Assets JNull = Some []"
| "unmarshal_Assets (JObj kvs) = unmarshal_members kvs []"
| "unmarshal_Assets _ = None"

fun unmarshal_VottJsonModel :: "json \<Rightarrow> VottJsonModel option" where
  "unmarshal_VottJsonModel (JObj kvs) =
     do { n \<leftarrow> unmarshal_string (member kvs ''name'');
          s \<leftarrow> unmarshal_string (member kvs ''securityToken'');
          vs \<leftarrow> unmarshal_VideoSettings (member kvs ''videoSettings'');
          ts \<leftarrow> unmarshal_slice unmarshal_Tag (member kvs ''tags'');
          i \<leftarrow> unmarshal_string (member kvs ''id'');
          al \<leftarrow> unmarshal_ActiveLearningSettings (member kvs ''activeLearningSettings'');
          v \<leftarrow> unmarshal_string (member kvs ''version'');
          l \<leftarrow> unmarshal_string (member kvs ''lastVisitedAssetId'');
          as \<leftarrow> unmarshal_Assets (member kvs ''assets'');
          Some \<lparr>VottJsonModel.Name = n, SecurityToken = s, VideoSettings = vs,
                VottJsonModel.Tags = ts, VottJsonModel.ID = i, ActiveLearningSettings = al,
                VottJsonModel.Version = v, LastVisitedAssetID = l, Assets = as\<rparr> }"
| "unmarshal_VottJsonModel _ = None"

section \<open>writeVottJSON (votter.go, lines 282-320)\<close>

text \<open>The region built for one asset (lines 292-298); \<open>rid\<close> is the fresh identifier.\<close>

definition asset_region :: "string \<Rightarrow> Asset \<Rightarrow> Region" where
  "asset_region rid asset =
     \<lparr>Region.ID = rid,
      Region.Type = ''RECTANGLE'',
      Region.Tags = [Label asset],
      BoundingBox = \<lparr>BoundingBox.Height = Size.Height (Size asset),
                      BoundingBox.Width = Size.Width (Size asset), Left = 0, Top = 0\<rparr>,
      Points = [\<lparr>X = 0, Y = 0\<rparr>,
                \<lparr>X = Size.Width (Size asset), Y = Size.Height (Size asset)\<rparr>]\<rparr>"

text \<open>
  The loop over the assets (lines 291-305): \<open>n\<close> counts the identifiers drawn so far,
  \<open>m\<close> is \<^verbatim>\<open>model.Assets\<close>.
\<close>

fun add_assets ::
  "(nat \<Rightarrow> string) \<Rightarrow> nat \<Rightarrow> Asset list \<Rightarrow> (string, AssetDetail) gomap \<Rightarrow>
     (string, AssetDetail) gomap"
where
  "add_assets gen n [] m = m"
| "add_assets gen n (asset # assets) m =
     add_assets gen (Suc n) assets
       (AList.update (Asset.ID asset)
          \<lparr>Asset = asset, Regions = [asset_region (gen n) asset], AssetDetail.Version = ''2.2.0''\<rparr>
          m)"

text \<open>The loop over the labels (lines 307-313).\<close>

fun add_tags :: "string list \<Rightarrow> Tag list \<Rightarrow> Tag list" where
  "add_tags [] ts = ts"
| "add_tags (label # tags) ts = add_tags tags (ts @ [\<lparr>Tag.Name = label, Color = ''#ff0000''\<rparr>])"

text \<open>The model as it stands when it is marshalled (line 315).\<close>

definition vott_model :: "(nat \<Rightarrow> string) \<Rightarrow> nat \<Rightarrow> Asset list \<Rightarrow> string list \<Rightarrow> VottJsonModel" where
  "vott_model gen n assets tags =
     \<lparr>VottJsonModel.Name = [],
      SecurityToken = [],
      VideoSettings = \<lparr>FrameExtractionRate = 0\<rparr>,
      VottJsonModel.Tags = add_tags tags [],
      VottJsonModel.ID = [],
      ActiveLearningSettings =
        \<lparr>AutoDetect = False, PredictTag = True, ModelPathType = ''coco''\<rparr>,
      VottJsonModel.Version = ''2.2.0'',
      LastVisitedAssetID = [],
      Assets = add_assets gen n assets []\<rparr>"

text \<open>
  \<open>writeVottJSON\<close> returns the error of \<^verbatim>\<open>ioutil.WriteFile\<close>, or the data now
  stored at \<open>path\<close>. Marshalling these types cannot fail.
\<close>

definition writeVottJSON :: "env \<Rightarrow> nat \<Rightarrow> string \<Rightarrow> Asset list \<Rightarrow> string list \<Rightarrow> error + json" where
  "writeVottJSON e n path assets tags =
     (let data = marshal_VottJsonModel (vott_model (uuid e) n assets tags)
      in case writeFile e path of
           Some err \<Rightarrow> Inl err
         | None \<Rightarrow> Inr data)"

section \<open>Strings and file names\<close>

text \<open>
  \<^verbatim>\<open>strings.ToLower\<close> lowers an ASCII string byte by byte: \<open>A-Z\<close> become \<open>a-z\<close>. A
  string with other bytes is lowered rune by rune with the case tables of package
  \<^verbatim>\<open>unicode\<close>, which are not part of the program. There an ASCII byte is still a rune
  of its own and lowered as before, and what the tables make of a maximal run of
  non-ASCII bytes is taken from the environment (\<open>unicode_lower\<close>); it can be ASCII, as
  for U+0130, which is lowered to \<^verbatim>\<open>i\<close>. \<open>lower_runs L run s\<close> lowers \<open>s\<close> after the
  non-ASCII bytes \<open>run\<close> read so far.
\<close>

definition lower_char :: "char \<Rightarrow> char" where
  "lower_char c =
     (case map_of (zip ''ABCDEFGHIJKLMNOPQRSTUVWXYZ'' ''abcdefghijklmnopqrstuvwxyz'') c of
        None \<Rightarrow> c
      | Some l \<Rightarrow> l)"

fun lower_runs :: "(string \<Rightarrow> string) \<Rightarrow> string \<Rightarrow> string \<Rightarrow> string" where
  "lower_runs L run [] = (if run = [] then [] else L run)"
| "lower_runs L run (c # cs) =
     (if is_ascii c then
        (if run = [] then [] else L run) @ lower_char c # lower_runs L [] cs
      else lower_runs L (run @ [c]) cs)"

definition ToLower :: "env \<Rightarrow> string \<Rightarrow> string" where
  "ToLower e s = lower_runs (unicode_lower e) [] s"

text \<open>\<^verbatim>\<open>strings.TrimPrefix\<close>: the string without the prefix, if it starts with it.\<close>

definition TrimPrefix :: "string \<Rightarrow> string \<Rightarrow> string" where
  "TrimPrefix s p = (if take (length p) s = p then drop (length p) s else s)"

text \<open>
  \<^verbatim>\<open>filepath.Ext\<close> scans the path from its end up to the last separator and returns
  the suffix that starts at the first dot it meets, or the empty string. \<open>ext_scan\<close>
  takes the part still to scan, reversed, and the part already scanned.
\<close>

fun ext_scan :: "string \<Rightarrow> string \<Rightarrow> string" where
  "ext_scan [] seen = []"
| "ext_scan (c # cs) seen =
     (if c = CHR ''/'' then []
      else if c = CHR ''.'' then c # seen
      else ext_scan cs (c # seen))"

definition Ext :: "string \<Rightarrow> string" where
  "Ext path = ext_scan (rev path) []"

text \<open>isImage (lines 236-239).\<close>

definition isImage :: "env \<Rightarrow> string \<Rightarrow> bool" where
  "isImage e filename =
     (let ext = ToLower e (Ext filename)
      in ext = ''.png'' \<or> ext = ''.jpg'' \<or> ext = ''.jpeg'' \<or> ext = ''.gif'' \<or> ext = ''.bmp'')"

section \<open>Scanning: isDirectory, listImages, findImages (lines 184-234)\<close>

text \<open>
  A path below the scanned root is the list of the names that lead to it; the root itself
  is \<open>[]\<close>. \<^verbatim>\<open>filepath.Walk\<close> builds the path of an entry by joining the path of its
  directory and its name, and \<^verbatim>\<open>filepath.Base\<close> of such a path is its last name.
\<close>

type_synonym path = "string list"

definition Base :: "path \<Rightarrow> string" where
  "Base p = last p"

fun IsDir :: "fsnode \<Rightarrow> bool" where
  "IsDir (File n c) = False"
| "IsDir (Dir n cs) = True"
| "IsDir (DirErr n) = True"

definition isDirectory :: "env \<Rightarrow> string \<Rightarrow> bool" where
  "isDirectory e p = (case fs e p of None \<Rightarrow> False | Some info \<Rightarrow> IsDir info)"

fun listImages :: "env \<Rightarrow> fsnode \<Rightarrow> error + string list" where
  "listImages e (File n c) = Inl ErrNotDir"
| "listImages e (DirErr n) = Inl ErrPermission"
| "listImages e (Dir n files) = Inr (filter (isImage e) (map name_of files))"

text \<open>
  The function findImages hands to \<^verbatim>\<open>filepath.Walk\<close> (lines 193-208): \<open>p\<close> is the path
  of the entry and \<open>info\<close> the entry, \<open>err\<close> the error Walk met at it, \<open>labels\<close> the map the
  closure updates.
\<close>

definition walkFn ::
  "env \<Rightarrow> path \<Rightarrow> fsnode \<Rightarrow> error option \<Rightarrow> (string, string list) gomap \<Rightarrow>
     error + (string, string list) gomap"
where
  "walkFn e p info err labels =
     (case err of
        Some er \<Rightarrow> Inl er
      | None \<Rightarrow>
          if IsDir info \<and> p \<noteq> [] then
            (let label = Base p
             in case listImages e info of
                  Inl er \<Rightarrow> Inl er
                | Inr images \<Rightarrow>
                    if length images > 0 then Inr (AList.update label images labels)
                    else Inr labels)
          else Inr labels)"

text \<open>
  \<^verbatim>\<open>filepath.Walk\<close>: the function is called on an entry before the entries below it;
  a directory that cannot be listed is reported to the function with the error; the
  first error the function returns ends the walk.
\<close>

fun walk ::
  "env \<Rightarrow> path \<Rightarrow> fsnode \<Rightarrow> (string, string list) gomap \<Rightarrow>
     error + (string, string list) gomap"
and walk_names ::
  "env \<Rightarrow> path \<Rightarrow> fsnode list \<Rightarrow> (string, string list) gomap \<Rightarrow>
     error + (string, string list) gomap"
where
  "walk e p (File n c) labels = walkFn e p (File n c) None labels"
| "walk e p (DirErr n) labels = walkFn e p (DirErr n) (Some ErrPermission) labels"
| "walk e p (Dir n cs) labels =
     (case walkFn e p (Dir n cs) None labels of
        Inl er \<Rightarrow> Inl er
      | Inr labels' \<Rightarrow> walk_names e p cs labels')"
| "walk_names e p [] labels = Inr labels"
| "walk_names e p (c # cs) labels =
     (case walk e (p @ [name_of c]) c labels of
        Inl er \<Rightarrow> Inl er
      | Inr labels' \<Rightarrow> walk_names e p cs labels')"

text \<open>
  A function of the program returns a value, returns an error, or ends the process with
  an exit code after printing a text (\<^verbatim>\<open>os.Exit\<close> inside findImages, line 216).
\<close>

datatype 'a outcome = Returned 'a | Failed error | Exited int string

definition findImages :: "env \<Rightarrow> string \<Rightarrow> (string, string list) gomap outcome" where
  "findImages e root =
     (case (case fs e root of
              None \<Rightarrow> Inl ErrNotExist
            | Some info \<Rightarrow> walk e [] info []) of
        Inl err \<Rightarrow> Failed err
      | Inr labels \<Rightarrow>
          if length labels = 0 then
            Exited ExitImagesFolderEmpty ''Error: No images found in subdirectories.''
          else Returned labels)"

section \<open>Building the assets: generateVottEntries (lines 241-280)\<close>

text \<open>The entry a path below a tree leads to.\<close>

fun child :: "string \<Rightarrow> fsnode list \<Rightarrow> fsnode option" where
  "child n [] = None"
| "child n (c # cs) = (if name_of c = n then Some c else child n cs)"

fun resolve :: "fsnode \<Rightarrow> path \<Rightarrow> fsnode option" where
  "resolve t [] = Some t"
| "resolve (Dir n cs) (x # xs) = (case child x cs of None \<Rightarrow> None | Some c \<Rightarrow> resolve c xs)"
| "resolve (File n c) (x # xs) = None"
| "resolve (DirErr n) (x # xs) = None"

text \<open>
  \<^verbatim>\<open>os.Open\<close> of the path \<open>p\<close> below the tree at \<open>root\<close>, then
  \<^verbatim>\<open>image.DecodeConfig\<close> (lines 252-260). A directory opens, and reading an image
  header from it finds no known format.
\<close>

definition open_DecodeConfig :: "env \<Rightarrow> string \<Rightarrow> path \<Rightarrow> error + int \<times> int" where
  "open_DecodeConfig e root p =
     (case fs e root of
        None \<Rightarrow> Inl ErrNotExist
      | Some t \<Rightarrow>
          (case resolve t p of
             None \<Rightarrow> Inl ErrNotExist
           | Some (File n NoAccess) \<Rightarrow> Inl ErrPermission
           | Some (File n Undecodable) \<Rightarrow> Inl ErrFormat
           | Some (File n (Image w h)) \<Rightarrow> Inr (w, h)
           | Some (Dir n cs) \<Rightarrow> Inl ErrFormat
           | Some (DirErr n) \<Rightarrow> Inl ErrFormat))"

text \<open>
  The state of the two loops: the entries appended so far, the number of identifiers
  drawn so far, and the paths (below the dataset directory) opened so far.
\<close>

record builder =
  entries :: "Asset list"
  drawn :: nat
  opened :: "path list"

text \<open>
  The path line 246 joins is the dataset path, the label and the file name; opening it
  finds the entry \<open>[label, imgFileName]\<close> below the dataset directory.
\<close>

definition imgRelativePath :: "string \<Rightarrow> string \<Rightarrow> path" where
  "imgRelativePath label imgFileName = [label, imgFileName]"

fun images_loop ::
  "env \<Rightarrow> string \<Rightarrow> string \<Rightarrow> string list \<Rightarrow> builder \<Rightarrow> builder \<times> error option"
where
  "images_loop e pathToImagesDataset label [] b = (b, None)"
| "images_loop e pathToImagesDataset label (imgFileName # images) b =
     (case fp_Abs e (fp_Join e [pathToImagesDataset, label, imgFileName]) of
        Inl err \<Rightarrow> (b, Some err)
      | Inr imgAbsolutePath \<Rightarrow>
          (let b' = b\<lparr>opened := opened b @ [imgRelativePath label imgFileName]\<rparr>
           in case open_DecodeConfig e pathToImagesDataset (imgRelativePath label imgFileName) of
                Inl err \<Rightarrow> (b', Some err)
              | Inr (w, h) \<Rightarrow>
                  (let entry =
                     \<lparr>Format = TrimPrefix (Ext imgFileName) ''.'',
                      Asset.ID = uuid e (drawn b'),
                      Asset.Name = imgFileName,
                      Path = ''file:'' @ fp_ToSlash e imgAbsolutePath,
                      Size = \<lparr>Size.Width = w, Size.Height = h\<rparr>,
                      State = 0,
                      Asset.Type = 0,
                      Label = label\<rparr>
                   in images_loop e pathToImagesDataset label images
                        (b'\<lparr>entries := entries b' @ [entry], drawn := Suc (drawn b')\<rparr>))))"

fun labels_loop ::
  "env \<Rightarrow> string \<Rightarrow> (string \<times> string list) list \<Rightarrow> builder \<Rightarrow> builder \<times> error option"
where
  "labels_loop e pathToImagesDataset [] b = (b, None)"
| "labels_loop e pathToImagesDataset ((label, images) # rest) b =
     (case images_loop e pathToImagesDataset label images b of
        (b', Some err) \<Rightarrow> (b', Some err)
      | (b', None) \<Rightarrow> labels_loop e pathToImagesDataset rest b')"

text \<open>
  \<open>generateVottEntries e cs n\<close>: \<open>cs\<close> fixes the order of the \<^verbatim>\<open>range\<close> over the
  map, \<open>n\<close> is the number of identifiers drawn before the call. The result is the state
  the loops ended in and the error, if any; the Go function returns
  \<open>(nil, err)\<close> in the one case and \<open>(entries, nil)\<close> in the other.
\<close>

definition generateVottEntries ::
  "env \<Rightarrow> nat list \<Rightarrow> nat \<Rightarrow> string \<Rightarrow> (string, string list) gomap \<Rightarrow> builder \<times> error option"
where
  "generateVottEntries e cs n pathToImagesDataset labels =
     labels_loop e pathToImagesDataset (range_order cs labels)
       \<lparr>entries = [], drawn = n, opened = []\<rparr>"

section \<open>The command line: package flag\<close>

text \<open>
  main registers two boolean flags, \<^verbatim>\<open>v\<close> and \<^verbatim>\<open>h\<close>, on the default flag set
  (lines 106-107). \<^verbatim>\<open>flag.Parse\<close> reads arguments while they are flags: an argument
  shorter than two characters or not starting with \<^verbatim>\<open>-\<close> ends the flags, as does
  \<^verbatim>\<open>--\<close>; one or two leading dashes are the same; the name runs up to the first
  \<^verbatim>\<open>=\<close>, and a boolean flag without a value is set to true. A name that is not
  registered is an error, except \<^verbatim>\<open>help\<close>, which asks for the usage text. On an
  error the default flag set prints the error and the usage text and exits with status
  2; after the usage text asked for by \<^verbatim>\<open>-help\<close> it exits with status 0.
\<close>

datatype flag_error = BadFlagSyntax string | NotDefined string | InvalidBoolean string string

datatype parsed = Parsed bool bool "string list" | ParseError flag_error | ParseHelp

definition ParseBool :: "string \<Rightarrow> bool option" where
  "ParseBool s =
     (if s \<in> set [''1'', ''t'', ''T'', ''TRUE'', ''true'', ''True''] then Some True
      else if s \<in> set [''0'', ''f'', ''F'', ''FALSE'', ''false'', ''False''] then Some False
      else None)"

definition split_value :: "string \<Rightarrow> string \<times> string option" where
  "split_value name =
     (case name of
        [] \<Rightarrow> ([], None)
      | c # cs \<Rightarrow>
          if CHR ''='' \<in> set cs then
            (c # takeWhile (\<lambda>x. x \<noteq> CHR ''='') cs, Some (tl (dropWhile (\<lambda>x. x \<noteq> CHR ''='') cs)))
          else (name, None))"

fun flag_Parse :: "bool \<Rightarrow> bool \<Rightarrow> string list \<Rightarrow> parsed" where
  "flag_Parse v h [] = Parsed v h []"
| "flag_Parse v h (s # args) =
     (if length s < 2 \<or> hd s \<noteq> CHR ''-'' then Parsed v h (s # args)
      else if s = ''--'' then Parsed v h args
      else
        (let name = (if s ! 1 = CHR ''-'' then drop 2 s else drop 1 s)
         in if name = [] \<or> hd name = CHR ''-'' \<or> hd name = CHR ''='' then
              ParseError (BadFlagSyntax s)
            else
              (case split_value name of
                 (name', value) \<Rightarrow>
                   if name' = ''v'' \<or> name' = ''h'' then
                     (case value of
                        None \<Rightarrow>
                          if name' = ''v'' then flag_Parse True h args else flag_Parse v True args
                      | Some x \<Rightarrow>
                          (case ParseBool x of
                             None \<Rightarrow> ParseError (InvalidBoolean x name')
                           | Some b \<Rightarrow>
                               if name' = ''v'' then flag_Parse b h args
                               else flag_Parse v b args))
                   else if name' = ''help'' then ParseHelp
                   else ParseError (NotDefined name'))))"

section \<open>main (lines 101-182)\<close>

text \<open>
  What a run does that can be seen from outside, in order: text on standard output, an
  error printed with \<^verbatim>\<open>fmt.Println\<close>, the flag package's error and usage texts, the
  \<^verbatim>\<open>os.Stat\<close> of isDirectory, the walk of findImages, the opening of an image file
  (by its path below the images directory), and the data stored by a successful
  \<^verbatim>\<open>ioutil.WriteFile\<close>.
\<close>

datatype event =
    Stdout string
  | StdoutErr error
  | FlagError flag_error
  | Usage
  | Stat string
  | Walk string
  | Open path
  | WriteFile string json

definition nl :: string where
  "nl = [CHR 0x0A]"

text \<open>The format \<^verbatim>\<open>'%s'\<close>.\<close>

definition quoted :: "string \<Rightarrow> string" where
  "quoted s = [CHR 0x27] @ s @ [CHR 0x27]"

text \<open>Step 3 (lines 166-181), entered with the events so far.\<close>

definition main_step3 ::
  "env \<Rightarrow> event list \<Rightarrow> string \<Rightarrow> (string, string list) gomap \<Rightarrow> string list \<Rightarrow>
     Asset list \<Rightarrow> nat \<Rightarrow> event list \<times> int"
where
  "main_step3 e evs annotationFile imagesPerLabelDirectoryMap labels assets n =
     (let prints =
        concat (map (\<lambda>(label, images).
                  map (\<lambda>image. Stdout (''Label '' @ quoted label @ '' for image '' @ quoted image @ ''.'' @ nl))
                    images)
                (range_order (range_seed e 2) imagesPerLabelDirectoryMap))
      in case writeVottJSON e n annotationFile assets labels of
           Inl err \<Rightarrow> (evs @ prints @ [StdoutErr err], ExitImagesFolderNotFound)
         | Inr data \<Rightarrow> (evs @ prints @ [WriteFile annotationFile data], ExitSuccesful))"

text \<open>Step 2 (lines 144-164).\<close>

definition main_step2 :: "env \<Rightarrow> event list \<Rightarrow> string \<Rightarrow> string \<Rightarrow> event list \<times> int" where
  "main_step2 e evs imagesPath annotationFile =
     (case findImages e imagesPath of
        Failed err \<Rightarrow> (evs @ [Walk imagesPath, StdoutErr err], ExitImagesFolderEmpty)
      | Exited code text \<Rightarrow> (evs @ [Walk imagesPath, Stdout text], code)
      | Returned imagesPerLabelDirectoryMap \<Rightarrow>
          (let labels = map fst (range_order (range_seed e 0) imagesPerLabelDirectoryMap)
           in case generateVottEntries e (range_seed e 1) 0 imagesPath imagesPerLabelDirectoryMap of
                (b, Some err) \<Rightarrow>
                  (evs @ [Walk imagesPath] @ map Open (opened b) @ [StdoutErr err],
                   ExitImagesFolderEmpty)
              | (b, None) \<Rightarrow>
                  main_step3 e (evs @ [Walk imagesPath] @ map Open (opened b)) annotationFile
                    imagesPerLabelDirectoryMap labels (entries b) (drawn b)))"

text \<open>Step 1 (lines 103-142); \<open>argv\<close> is the command line after the program name.\<close>

definition main :: "env \<Rightarrow> string list \<Rightarrow> event list \<times> int" where
  "main e argv =
     (case flag_Parse False False argv of
        ParseError err \<Rightarrow> ([FlagError err, Usage], 2)
      | ParseHelp \<Rightarrow> ([Usage], 0)
      | Parsed versionFlag helpFlag args \<Rightarrow>
          if versionFlag then ([Stdout (Version @ nl)], 0)
          else if helpFlag then ([Usage], 0)
          else
            (let imagesPath = (if length args > 0 then args ! 0 else OptionalPathToImagesDefault);
                 annotationFile =
                   (if length args = 2 then args ! 1 else OptionalAnnotationsFilenameDefault)
             in if \<not> isDirectory e imagesPath then
                  ([Stat imagesPath,
                    Stdout (''Error: '' @ quoted imagesPath @ '' is not an existing directory'' @ nl)],
                   ExitImagesFolderNotFound)
                else if \<not> isDirectory e (fp_Dir e annotationFile) then
                  ([Stat imagesPath, Stat (fp_Dir e annotationFile),
                    Stdout (''Error: Cannot write annotations to directory '' @ quoted annotationFile
                            @ nl)],
                   ExitAnnotationsFolderNotFound)
                else
                  main_step2 e [Stat imagesPath, Stat (fp_Dir e annotationFile)]
                    imagesPath annotationFile))"

section \<open>Notions the properties are stated with\<close>

text \<open>
  The directories at or below an entry, each with its path, in the order the walk meets
  them.
\<close>

fun subdirs :: "path \<Rightarrow> fsnode \<Rightarrow> (path \<times> fsnode) list"
and subdirs_names :: "path \<Rightarrow> fsnode list \<Rightarrow> (path \<times> fsnode) list"
where
  "subdirs p (File n c) = []"
| "subdirs p (DirErr n) = [(p, DirErr n)]"
| "subdirs p (Dir n cs) = (p, Dir n cs) # subdirs_names p cs"
| "subdirs_names p [] = []"
| "subdirs_names p (c # cs) = subdirs (p @ [name_of c]) c @ subdirs_names p cs"

fun dir_entries :: "fsnode \<Rightarrow> fsnode list" where
  "dir_entries (Dir n cs) = cs"
| "dir_entries (File n c) = []"
| "dir_entries (DirErr n) = []"

text \<open>Whether the walk can go through an entry: only a directory can fail to be listed.\<close>

fun listable :: "fsnode \<Rightarrow> bool" where
  "listable (Dir n cs) = True"
| "listable (File n c) = True"
| "listable (DirErr n) = False"

text \<open>
  The directories below the root whose listing has at least one image name, each with
  its path and its image names, in the order of the walk.
\<close>

definition label_dirs :: "env \<Rightarrow> fsnode \<Rightarrow> (path \<times> string list) list" where
  "label_dirs e t =
     filter (\<lambda>(p, images). p \<noteq> [] \<and> images \<noteq> [])
       (map (\<lambda>(p, d). (p, filter (isImage e) (map name_of (dir_entries d)))) (subdirs [] t))"

text \<open>
  The regular files with an image name in the directories below the root, each with the
  path of its directory.
\<close>

definition image_files :: "env \<Rightarrow> fsnode \<Rightarrow> (path \<times> string) list" where
  "image_files e t =
     concat (map (\<lambda>(p, d).
               map (Pair p)
                 (filter (isImage e) (map name_of (filter (\<lambda>c. \<not> IsDir c) (dir_entries d)))))
             (filter (\<lambda>(p, d). p \<noteq> []) (subdirs [] t)))"

text \<open>The (label, file name) pairs of a list of map entries, in the order of the two loops.\<close>

definition image_pairs :: "(string \<times> string list) list \<Rightarrow> (string \<times> string) list" where
  "image_pairs ls = concat (map (\<lambda>(label, images). map (Pair label) images) ls)"

text \<open>
  The path the builder opens for a pair, whether its header can be read there, and what
  it means that an asset was built for a pair: label and name are the pair's, the format
  is the name's extension without its dot, the size is the one read at the opened path.
\<close>

definition pair_path :: "string \<times> string \<Rightarrow> path" where
  "pair_path x = imgRelativePath (fst x) (snd x)"

definition decodes :: "env \<Rightarrow> string \<Rightarrow> string \<times> string \<Rightarrow> bool" where
  "decodes e root x =
     (case open_DecodeConfig e root (pair_path x) of Inl err \<Rightarrow> False | Inr wh \<Rightarrow> True)"

definition built :: "env \<Rightarrow> string \<Rightarrow> Asset \<Rightarrow> string \<times> string \<Rightarrow> bool" where
  "built e root a x \<longleftrightarrow>
     Label a = fst x \<and> Asset.Name a = snd x \<and>
     Format a = TrimPrefix (Ext (snd x)) ''.'' \<and>
     open_DecodeConfig e root (pair_path x) =
       Inr (Size.Width (Size a), Size.Height (Size a))"

text \<open>A tree as a file system has it: the names in a directory are distinct.\<close>

fun distinct_names :: "fsnode \<Rightarrow> bool" where
  "distinct_names (File n c) = True"
| "distinct_names (DirErr n) = True"
| "distinct_names (Dir n cs) = (distinct (map name_of cs) \<and> list_all distinct_names cs)"

text \<open>The image files a run opened and the files it wrote, read off its events.\<close>

fun opens :: "event list \<Rightarrow> path list" where
  "opens [] = []"
| "opens (Open p # evs) = p # opens evs"
| "opens (ev # evs) = opens evs"

fun writes :: "event list \<Rightarrow> (string \<times> json) list" where
  "writes [] = []"
| "writes (WriteFile p d # evs) = (p, d) # writes evs"
| "writes (ev # evs) = writes evs"

text \<open>Reading a written document: the member of an object, and the keys of an object.\<close>

fun json_member :: "string \<Rightarrow> json \<Rightarrow> json" where
  "json_member k (JObj kvs) = member kvs k"
| "json_member k v = JNull"

fun json_keys :: "json \<Rightarrow> string list" where
  "json_keys (JObj kvs) = map fst kvs"
| "json_keys v = []"

fun written :: "error + json \<Rightarrow> json" where
  "written (Inr data) = data"
| "written (Inl err) = JNull"

text \<open>
  The structs as \<^verbatim>\<open>json.Unmarshal\<close> reads them back from what was marshalled: every
  string is the one the JSON text holds.
\<close>

definition written_Tag :: "Tag \<Rightarrow> Tag" where
  "written_Tag t = \<lparr>Tag.Name = json_string (Tag.Name t), Color = json_string (Color t)\<rparr>"

definition written_Asset :: "Asset \<Rightarrow> Asset" where
  "written_Asset a =
     \<lparr>Format = json_string (Format a), Asset.ID = json_string (Asset.ID a),
      Asset.Name = json_string (Asset.Name a), Path = json_string (Path a), Size = Size a,
      State = State a, Asset.Type = Asset.Type a, Label = json_string (Label a)\<rparr>"

definition written_Region :: "Region \<Rightarrow> Region" where
  "written_Region r =
     \<lparr>Region.ID = json_string (Region.ID r), Region.Type = json_string (Region.Type r),
      Region.Tags = map json_string (Region.Tags r), BoundingBox = BoundingBox r,
      Points = Points r\<rparr>"

definition written_AssetDetail :: "AssetDetail \<Rightarrow> AssetDetail" where
  "written_AssetDetail d =
     \<lparr>Asset = written_Asset (Asset d), Regions = map written_Region (Regions d),
      AssetDetail.Version = json_string (AssetDetail.Version d)\<rparr>"



text \<open>
  The number of assets and the number of tags of the document that \<^verbatim>\<open>json.Unmarshal\<close>
  reads back from written data (as \<^verbatim>\<open>Test_WriteVottJSON\<close> counts them).
\<close>

fun parsed_counts :: "error + json \<Rightarrow> (nat \<times> nat) option" where
  "parsed_counts (Inl err) = None"
| "parsed_counts (Inr data) =
     (case unmarshal_VottJsonModel data of
        None \<Rightarrow> None
      | Some model \<Rightarrow> Some (length (Assets model), length (VottJsonModel.Tags model)))"

section \<open>Concrete inputs\<close>

text \<open>The asset of \<^verbatim>\<open>Test_WriteVottJSON\<close>, and a second asset with the same identifier.\<close>

definition asset1 :: Asset where
  "asset1 =
     \<lparr>Format = ''jpg'', Asset.ID = ''id1'', Asset.Name = ''image1.jpg'',
      Path = ''file:/path/to/image1.jpg'', Size = \<lparr>Size.Width = 100, Size.Height = 200\<rparr>,
      State = 0, Asset.Type = 0, Label = ''class_name''\<rparr>"

definition asset2 :: Asset where
  "asset2 =
     \<lparr>Format = ''png'', Asset.ID = ''id1'', Asset.Name = ''image2.png'',
      Path = ''file:/path/to/image2.png'', Size = \<lparr>Size.Width = 30, Size.Height = 40\<rparr>,
      State = 0, Asset.Type = 0, Label = ''class_name''\<rparr>"

text \<open>
  Directory trees: the example of the README (\<open>dataset\<close>); label directories without
  images (\<open>empty\<close>), a label directory that holds a directory with an image name and
  no file (\<open>imgdir\<close>), a directory that cannot be listed (\<open>locked\<close>); two label
  directories whose names are the single bytes \<open>FE\<close> and \<open>FF\<close> (\<open>rawnames\<close>); a label directory whose second image has no decodable header
  (\<open>broken\<close>); an image with an upper-case extension (\<open>upper\<close>); a label directory
  two levels below the root (\<open>nested\<close>), and the same beside a directory of that name
  in the root (\<open>shadow\<close>); two directories with the same name and a third directory
  (\<open>twins\<close>).
\<close>

definition tree_dataset :: fsnode where
  "tree_dataset =
     Dir ''dataset''
       [Dir ''cat'' [File ''image1.jpg'' (Image 100 200), File ''image2.png'' (Image 30 40)],
        Dir ''dog'' [File ''image1.jpg'' (Image 50 60)]]"

definition tree_empty :: fsnode where
  "tree_empty =
     Dir ''empty'' [Dir ''cat'' [File ''notes.txt'' Undecodable], Dir ''dog'' [],
                    File ''stray.jpg'' (Image 1 1)]"

definition tree_imgdir :: fsnode where
  "tree_imgdir = Dir ''imgdir'' [Dir ''cat'' [Dir ''sub.png'' []]]"

definition tree_locked :: fsnode where
  "tree_locked = Dir ''locked'' [Dir ''cat'' [File ''notes.txt'' Undecodable], DirErr ''dog'']"

definition tree_rawnames :: fsnode where
  "tree_rawnames =
     Dir ''rawnames''
       [Dir [CHR 0xFE] [File ''a.png'' (Image 1 1)],
        Dir [CHR 0xFF] [File ''b.png'' (Image 2 2)]]"

definition tree_broken :: fsnode where
  "tree_broken =
     Dir ''broken''
       [Dir ''cat'' [File ''a.jpg'' (Image 10 20), File ''b.png'' Undecodable,
                     File ''c.gif'' (Image 5 5)]]"

definition tree_upper :: fsnode where
  "tree_upper = Dir ''upper'' [Dir ''cat'' [File ''PHOTO.JPG'' (Image 640 480)]]"

definition tree_nested :: fsnode where
  "tree_nested = Dir ''nested'' [Dir ''pets'' [Dir ''cat'' [File ''x.png'' (Image 8 8)]]]"

definition tree_shadow :: fsnode where
  "tree_shadow =
     Dir ''shadow''
       [Dir ''cat'' [File ''x.png'' (Image 1 1)],
        Dir ''pets'' [Dir ''cat'' [File ''x.png'' (Image 8 8)]]]"

definition tree_twins :: fsnode where
  "tree_twins =
     Dir ''twins''
       [Dir ''a'' [Dir ''cat'' [File ''x.png'' (Image 8 8)]],
        Dir ''cat'' [File ''y.png'' (Image 9 9)],
        Dir ''dog'' [File ''z.png'' (Image 7 7)]]"



fun join_slash :: "string list \<Rightarrow> string" where
  "join_slash [] = []"
| "join_slash [x] = x"
| "join_slash (x # y # ys) = x @ ''/'' @ join_slash (y # ys)"

text \<open>
  An environment with these trees. All their names but the two of \<open>rawnames\<close> are
  ASCII, and the extensions of all names are: \<^verbatim>\<open>strings.ToLower\<close> never consults the
  case tables on them.
\<close>

definition env0 :: env where
  "env0 =
     \<lparr>fs = map_of [(''dataset'', tree_dataset), (''empty'', tree_empty),
                   (''imgdir'', tree_imgdir), (''locked'', tree_locked),
                   (''rawnames'', tree_rawnames),
                   (''broken'', tree_broken), (''upper'', tree_upper),
                   (''nested'', tree_nested), (''shadow'', tree_shadow),
                   (''twins'', tree_twins),
                   (''.'', Dir ''.'' [])],
      fp_Join = join_slash,
      fp_Abs = (\<lambda>p. Inr (''/home/user/'' @ p)),
      fp_ToSlash = (\<lambda>p. p),
      fp_Dir = (\<lambda>p. ''.''),
      unicode_lower = (\<lambda>run. run),
      uuid = (\<lambda>n. replicate (Suc n) CHR ''u''),
      range_seed = (\<lambda>k. []),
      writeFile = (\<lambda>p. None)\<rparr>"

section \<open>Properties of writeVottJSON\<close>

subsection \<open>The two loops\<close>

lemma add_tags_eq:
  "add_tags tags ts = ts @ map (\<lambda>l. \<lparr>Tag.Name = l, Color = ''#ff0000''\<rparr>) tags"
  by (induction tags arbitrary: ts) simp_all


lemma add_assets_keys:
  "fst ` set (add_assets gen n assets m) = Asset.ID ` set assets \<union> fst ` set m"
  by (induction assets arbitrary: n m) (auto simp: dom_update)

lemma add_assets_distinct:
  "distinct (map fst m) \<Longrightarrow> distinct (map fst (add_assets gen n assets m))"
  by (induction assets arbitrary: n m) (simp_all add: distinct_update)

lemma add_assets_length:
  "distinct (map fst m) \<Longrightarrow> length (add_assets gen n assets m) = card (Asset.ID ` set assets \<union> fst ` set m)"
proof -
  assume d: "distinct (map fst m)"
  have "card (set (map fst (add_assets gen n assets m))) = length (map fst (add_assets gen n assets m))"
    by (rule distinct_card[OF add_assets_distinct[OF d]])
  then show ?thesis
    by (simp add: add_assets_keys)
qed


lemma add_assets_other:
  "k \<notin> Asset.ID ` set assets \<Longrightarrow> map_of (add_assets gen n assets m) k = map_of m k"
  by (induction assets arbitrary: n m) (auto simp: update_conv')

lemma add_assets_present:
  assumes "distinct (map Asset.ID assets)" "a \<in> set assets"
  shows "\<exists>d. map_of (add_assets gen n assets m) (Asset.ID a) = Some d \<and> Asset d = a"
  using assms
proof (induction assets arbitrary: n m)
  case Nil
  then show ?case by simp
next
  case (Cons x assets)
  show ?case
  proof (cases "a = x")
    case True
    with Cons.prems have "Asset.ID a \<notin> Asset.ID ` set assets" by auto
    then show ?thesis using True by (simp add: add_assets_other update_conv')
  next
    case False
    with Cons show ?thesis by simp
  qed
qed


subsection \<open>Strings that are written unchanged\<close>

lemma json_string_ascii: "list_all is_ascii s \<Longrightarrow> json_string s = s"
  unfolding json_string_def by (induction s) (auto simp: rune_size_def is_ascii_def)

lemma valid_utf8_ascii: "list_all is_ascii s \<Longrightarrow> valid_utf8 s"
  by (simp add: valid_utf8_def json_string_ascii)

subsection \<open>Reading back what was marshalled\<close>

lemma those_map_Some:
  "(\<And>x. f (g x) = Some (h x)) \<Longrightarrow> those (map (f \<circ> g) xs) = Some (map h xs)"
  by (induction xs) simp_all

lemma unmarshal_Tag_marshal: "unmarshal_Tag (marshal_Tag t) = Some (written_Tag t)"
  by (simp add: marshal_Tag_def member_def written_Tag_def)

lemma unmarshal_VideoSettings_marshal: "unmarshal_VideoSettings (marshal_VideoSettings t) = Some t"
  by (simp add: marshal_VideoSettings_def member_def)

lemma unmarshal_ActiveLearningSettings_marshal:
  "unmarshal_ActiveLearningSettings (marshal_ActiveLearningSettings t) =
     Some (t\<lparr>ModelPathType := json_string (ModelPathType t)\<rparr>)"
  by (simp add: marshal_ActiveLearningSettings_def member_def)

lemma unmarshal_Size_marshal: "unmarshal_Size (marshal_Size t) = Some t"
  by (simp add: marshal_Size_def member_def)

lemma unmarshal_Asset_marshal: "unmarshal_Asset (marshal_Asset t) = Some (written_Asset t)"
  by (simp add: marshal_Asset_def member_def unmarshal_Size_marshal written_Asset_def)

lemma unmarshal_BoundingBox_marshal: "unmarshal_BoundingBox (marshal_BoundingBox t) = Some t"
  by (simp add: marshal_BoundingBox_def member_def)

lemma unmarshal_Point_marshal: "unmarshal_Point (marshal_Point t) = Some t"
  by (simp add: marshal_Point_def member_def)

lemma unmarshal_Region_marshal: "unmarshal_Region (marshal_Region t) = Some (written_Region t)"
  by (simp add: marshal_Region_def member_def unmarshal_BoundingBox_marshal written_Region_def
      those_map_Some[of unmarshal_Point marshal_Point "\<lambda>p. p", OF unmarshal_Point_marshal]
      those_map_Some[of unmarshal_string "\<lambda>t. JStr (json_string t)" json_string])

lemma unmarshal_AssetDetail_marshal:
  "unmarshal_AssetDetail (marshal_AssetDetail t) = Some (written_AssetDetail t)"
  by (simp add: marshal_AssetDetail_def member_def unmarshal_Asset_marshal written_AssetDetail_def
      those_map_Some[of unmarshal_Region marshal_Region written_Region,
        OF unmarshal_Region_marshal])

lemma unmarshal_members_marshal:
  "unmarshal_members (map (\<lambda>(k, d). (json_string k, marshal_AssetDetail d)) xs) m =
     Some (foldl (\<lambda>m (k, d). AList.update (json_string k) (written_AssetDetail d) m) m xs)"
  by (induction xs arbitrary: m) (auto simp: unmarshal_AssetDetail_marshal)

lemma read_members_keys:
  "fst ` set (foldl (\<lambda>m (k, d). AList.update (json_string k) (written_AssetDetail d) m) m xs) =
     fst ` set m \<union> json_string ` fst ` set xs"
proof (induction xs arbitrary: m)
  case Nil
  show ?case by simp
next
  case (Cons x xs)
  obtain k d where x: "x = (k, d)" by (cases x)
  show ?case
    unfolding x by (simp add: Cons.IH dom_update)
qed

lemma read_members_distinct:
  "distinct (map fst m) \<Longrightarrow>
     distinct (map fst
       (foldl (\<lambda>m (k, d). AList.update (json_string k) (written_AssetDetail d) m) m xs))"
  by (induction xs arbitrary: m) (auto simp: distinct_update)


lemma read_members_length:
  "length (foldl (\<lambda>m (k, d). AList.update (json_string k) (written_AssetDetail d) m) [] xs) =
     card (json_string ` fst ` set xs)"
proof -
  let ?r = "foldl (\<lambda>m (k, d). AList.update (json_string k) (written_AssetDetail d) m) [] xs"
  have "distinct (map fst ?r)" by (rule read_members_distinct) simp
  from distinct_card[OF this] show ?thesis
    by (simp add: read_members_keys)
qed

lemma unmarshal_Assets_marshal:
  "unmarshal_Assets (marshal_Assets m) =
     Some (foldl (\<lambda>m (k, d). AList.update (json_string k) (written_AssetDetail d) m) []
             (sort_key fst m))"
  by (simp add: marshal_Assets_def unmarshal_members_marshal)

lemma unmarshal_VottJsonModel_marshal:
  "unmarshal_VottJsonModel (marshal_VottJsonModel m) =
     Some \<lparr>VottJsonModel.Name = json_string (VottJsonModel.Name m),
           SecurityToken = json_string (SecurityToken m),
           VideoSettings = VideoSettings m,
           VottJsonModel.Tags = map written_Tag (VottJsonModel.Tags m),
           VottJsonModel.ID = json_string (VottJsonModel.ID m),
           ActiveLearningSettings =
             (ActiveLearningSettings m)
               \<lparr>ModelPathType := json_string (ModelPathType (ActiveLearningSettings m))\<rparr>,
           VottJsonModel.Version = json_string (VottJsonModel.Version m),
           LastVisitedAssetID = json_string (LastVisitedAssetID m),
           Assets =
             foldl (\<lambda>m (k, d). AList.update (json_string k) (written_AssetDetail d) m) []
               (sort_key fst (Assets m))\<rparr>"
  by (simp add: marshal_VottJsonModel_def member_def unmarshal_VideoSettings_marshal
      unmarshal_ActiveLearningSettings_marshal unmarshal_Assets_marshal
      those_map_Some[of unmarshal_Tag marshal_Tag written_Tag, OF unmarshal_Tag_marshal])

lemma parsed_counts_vott_model:
  "parsed_counts (Inr (marshal_VottJsonModel (vott_model gen n assets tags))) =
     Some (card ((\<lambda>a. json_string (Asset.ID a)) ` set assets), length tags)"
proof -
  have "json_string ` fst ` set (add_assets gen n assets []) =
          (\<lambda>a. json_string (Asset.ID a)) ` set assets"
    by (simp add: add_assets_keys image_image)
  then show ?thesis
    by (simp add: unmarshal_VottJsonModel_marshal read_members_length)
       (simp add: vott_model_def add_tags_eq)
qed

text \<open>
  Claim C8, as amended. When the write succeeds, the document parsed back from the
  written data has as many assets as there are distinct identifiers among the supplied
  assets once they are written (as many as were supplied when the written identifiers
  are pairwise distinct, which they are when the identifiers are valid UTF-8 and pairwise
  distinct), and as many tags as were supplied.
\<close>

theorem writeVottJSON_roundtrip_counts:
  assumes "writeFile e path = None"
  shows "parsed_counts (writeVottJSON e n path assets tags) =
           Some (card ((\<lambda>a. json_string (Asset.ID a)) ` set assets), length tags) \<and>
         (distinct (map (\<lambda>a. json_string (Asset.ID a)) assets) \<longrightarrow>
            parsed_counts (writeVottJSON e n path assets tags) =
              Some (length assets, length tags)) \<and>
         ((\<forall>a \<in> set assets. valid_utf8 (Asset.ID a)) \<and> distinct (map Asset.ID assets) \<longrightarrow>
            parsed_counts (writeVottJSON e n path assets tags) =
              Some (length assets, length tags))"
proof -
  have w: "writeVottJSON e n path assets tags =
             Inr (marshal_VottJsonModel (vott_model (uuid e) n assets tags))"
    using assms by (simp add: writeVottJSON_def)
  have c: "card ((\<lambda>a. json_string (Asset.ID a)) ` set assets) = length assets"
    if "distinct (map (\<lambda>a. json_string (Asset.ID a)) assets)"
    using distinct_card[OF that] by simp
  have v: "distinct (map (\<lambda>a. json_string (Asset.ID a)) assets)"
    if "\<forall>a \<in> set assets. valid_utf8 (Asset.ID a)" "distinct (map Asset.ID assets)"
  proof -
    from that(1) have eq: "map (\<lambda>a. json_string (Asset.ID a)) assets = map Asset.ID assets"
      by (intro map_cong) (simp_all add: valid_utf8_def)
    show ?thesis unfolding eq by (rule that(2))
  qed
  show ?thesis
    unfolding w parsed_counts_vott_model using c v by auto
qed

text \<open>The amended claim C8 at the input of \<^verbatim>\<open>Test_WriteVottJSON\<close>.\<close>

theorem writeVottJSON_roundtrip_counts_witness:
  "writeFile env0 ''vott.json'' = None \<and>
   valid_utf8 (Asset.ID asset1) \<and> distinct (map Asset.ID [asset1]) \<and>
   distinct (map (\<lambda>a. json_string (Asset.ID a)) [asset1]) \<and>
   parsed_counts (writeVottJSON env0 0 ''vott.json'' [asset1] [''class_name'']) = Some (1, 1)"
proof -
  have h: "writeFile env0 ''vott.json'' = None" by (simp add: env0_def)
  have v: "valid_utf8 (Asset.ID asset1)"
    by (simp add: asset1_def valid_utf8_ascii is_ascii_def)
  have d: "distinct (map (\<lambda>a. json_string (Asset.ID a)) [asset1])" by simp
  from writeVottJSON_roundtrip_counts[OF h, of 0 "[asset1]" "[''class_name'']"] d h v
  show ?thesis by simp
qed

text \<open>
  Claim C8 as stated fails: two supplied assets with the same identifier are stored under
  one key of \<^verbatim>\<open>model.Assets\<close> (line 304), so the parsed document has one asset
  where two were supplied.
\<close>

theorem writeVottJSON_duplicate_id_counterexample:
  "parsed_counts (writeVottJSON env0 0 ''vott.json'' [asset1, asset2] [''class_name''])
     = Some (1, 1) \<and> length [asset1, asset2] = 2"
proof -
  have w: "writeVottJSON env0 0 ''vott.json'' [asset1, asset2] [''class_name''] =
             Inr (marshal_VottJsonModel (vott_model (uuid env0) 0 [asset1, asset2] [''class_name'']))"
    by (simp add: writeVottJSON_def env0_def)
  show ?thesis
    unfolding w parsed_counts_vott_model by (simp add: asset1_def asset2_def)
qed

text \<open>The keys under which any asset is marshalled.\<close>

lemma marshal_Asset_keys:
  "json_keys (marshal_Asset a) =
     [''format'', ''id'', ''name'', ''path'', ''size'', ''state'', ''type'', ''Label'']"
  by (simp add: marshal_Asset_def)

text \<open>
  Claim C1. The documented asset object has the fields format, id, name, path, size, state
  and type. At the input of \<^verbatim>\<open>Test_WriteVottJSON\<close> the asset object written
  under the asset's identifier has an eighth field, \<^verbatim>\<open>Label\<close>: the struct field of
  line 73 carries no \<^verbatim>\<open>json\<close> tag and is marshalled under its Go name.
\<close>

theorem writeVottJSON_asset_keys:
  "json_keys (json_member ''asset'' (json_member ''id1'' (json_member ''assets''
     (written (writeVottJSON env0 0 ''vott.json'' [asset1] [''class_name''])))))
   = [''format'', ''id'', ''name'', ''path'', ''size'', ''state'', ''type'', ''Label'']"
  by (simp add: writeVottJSON_def env0_def vott_model_def asset1_def
      marshal_VottJsonModel_def marshal_Assets_def member_def marshal_AssetDetail_def
      marshal_Asset_def json_string_ascii is_ascii_def)

subsection \<open>The entry of an asset in the written document\<close>




lemma json_member_assets:
  "json_member ''assets'' (marshal_VottJsonModel m) = marshal_Assets (Assets m)"
  by (simp add: marshal_VottJsonModel_def member_def)




section \<open>Properties of the scan\<close>

subsection \<open>The order of a range loop is a rearrangement\<close>

lemma set_remove_nth:
  "i < length xs \<Longrightarrow> insert (xs ! i) (set (take i xs @ drop (Suc i) xs)) = set xs"
  by (metis id_take_nth_drop list.simps(15) set_append Un_insert_right)

lemma range_order_set: "set (range_order cs xs) = set xs"
proof (induction cs xs rule: range_order.induct)
  case (3 c cs x xs)
  let ?i = "c mod length (x # xs)"
  have i: "?i < length (x # xs)" by simp
  from "3.IH"[OF refl] set_remove_nth[OF i] show ?case
    by (simp add: Let_def del: set_append)
qed simp_all





subsection \<open>What the walk stores\<close>

text \<open>
  The walk fails, with the error of \<^verbatim>\<open>filepath.Walk\<close>, exactly when it meets a
  directory that cannot be listed. Otherwise it has stored, in turn, the image names of
  every directory below the root that has some, under the directory's base name.
\<close>

lemma walkFn_Dir:
  "walkFn e p (Dir n cs) None labels =
     Inr (if p \<noteq> [] \<and> filter (isImage e) (map name_of cs) \<noteq> []
          then AList.update (Base p) (filter (isImage e) (map name_of cs)) labels
          else labels)"
  by (simp add: walkFn_def del: length_filter_map)

lemma walk_result:
  "walk e p t labels =
     (if list_all (\<lambda>(q, d). listable d) (subdirs p t) then
        Inr (foldl (\<lambda>ls (q, images). AList.update (Base q) images ls) labels
               (filter (\<lambda>(q, images). q \<noteq> [] \<and> images \<noteq> [])
                  (map (\<lambda>(q, d). (q, filter (isImage e) (map name_of (dir_entries d))))
                     (subdirs p t))))
      else Inl ErrPermission)"
  "walk_names e p cs labels =
     (if list_all (\<lambda>(q, d). listable d) (subdirs_names p cs) then
        Inr (foldl (\<lambda>ls (q, images). AList.update (Base q) images ls) labels
               (filter (\<lambda>(q, images). q \<noteq> [] \<and> images \<noteq> [])
                  (map (\<lambda>(q, d). (q, filter (isImage e) (map name_of (dir_entries d))))
                     (subdirs_names p cs))))
      else Inl ErrPermission)"
proof (induction e p t labels and e p cs labels rule: walk_walk_names.induct)
  case (1 e p n c labels)
  then show ?case by (simp add: walkFn_def)
next
  case (2 e p n labels)
  then show ?case by (simp add: walkFn_def)
next
  case (3 e p n cs labels)
  define images where "images = filter (isImage e) (map name_of cs)"
  have w: "walkFn e p (Dir n cs) None labels =
             Inr (if p \<noteq> [] \<and> images \<noteq> [] then AList.update (Base p) images labels
                  else labels)"
    by (simp add: walkFn_Dir images_def)
  from "3.IH"[OF w] show ?case
    by (simp add: w images_def[symmetric])
next
  case (4 e p labels)
  then show ?case by simp
next
  case (5 e p c cs labels)
  show ?case
  proof (cases "walk e (p @ [name_of c]) c labels")
    case (Inl err)
    with "5.IH"(1) show ?thesis by (simp split: if_splits)
  next
    case (Inr labels')
    from "5.IH"(1) "5.IH"(2)[OF Inr] Inr show ?thesis
      by (simp split: if_splits)
  qed
qed

lemma map_of_foldl_update:
  "map_of (foldl (\<lambda>ls (q, images). AList.update (Base q) images ls) labels xs) b =
     (if filter (\<lambda>(q, images). Base q = b) xs = [] then map_of labels b
      else Some (snd (last (filter (\<lambda>(q, images). Base q = b) xs))))"
proof (induction xs arbitrary: labels)
  case Nil
  then show ?case by simp
next
  case (Cons x xs)
  obtain q i where x: "x = (q, i)" by (cases x)
  show ?case
    by (simp add: x Cons.IH update_conv')
qed

lemma distinct_foldl_update:
  "distinct (map fst labels) \<Longrightarrow>
     distinct (map fst (foldl (\<lambda>ls (q, images). AList.update (Base q) images ls) labels xs))"
  by (induction xs arbitrary: labels) (auto simp: distinct_update)

lemma filter_key_single:
  "distinct (map fst m) \<Longrightarrow> map_of m k = Some v \<Longrightarrow> filter (\<lambda>(k', v'). k' = k) m = [(k, v)]"
proof (induction m)
  case Nil
  then show ?case by simp
next
  case (Cons x m)
  obtain k' v' where x: "x = (k', v')" by (cases x)
  show ?case
  proof (cases "k' = k")
    case True
    with Cons.prems x have "k \<notin> fst ` set m" "v' = v" by auto
    then have "filter (\<lambda>(k', v'). k' = k) m = []"
      by (force simp: filter_empty_conv)
    with True x \<open>v' = v\<close> show ?thesis by simp
  next
    case False
    with Cons x show ?thesis by simp
  qed
qed

lemma findImages_Returned:
  assumes "fs e root = Some t" "findImages e root = Returned labels"
  shows "labels = foldl (\<lambda>ls (q, images). AList.update (Base q) images ls) [] (label_dirs e t)"
    and "labels \<noteq> []"
proof -
  from assms have w: "walk e [] t [] = Inr labels" and ne: "labels \<noteq> []"
    by (auto simp: findImages_def split: sum.splits if_splits)
  from w show
    "labels = foldl (\<lambda>ls (q, images). AList.update (Base q) images ls) [] (label_dirs e t)"
    by (simp add: walk_result(1) label_dirs_def split: if_splits)
  from ne show "labels \<noteq> []" .
qed

subsection \<open>The scan of the concrete trees\<close>

text \<open>File names of ASCII letters are lowered without the tables of package \<^verbatim>\<open>unicode\<close>.\<close>

lemma isImage_examples:
  "isImage e ''x.png''" "isImage e ''y.png''" "isImage e ''z.png''" "isImage e ''PHOTO.JPG''"
  "isImage e ''image1.jpg''" "isImage e ''image2.png''" "isImage e ''a.jpg''"
  "isImage e ''a.png''" "isImage e ''b.png''" "isImage e ''c.gif''" "isImage e ''sub.png''"
  "\<not> isImage e ''notes.txt''" "\<not> isImage e ''cat''" "\<not> isImage e ''dog''"
  "\<not> isImage e ''a''" "\<not> isImage e ''pets''"
  by (simp_all add: isImage_def Ext_def ToLower_def lower_char_def is_ascii_def)

text \<open>
  A name with other bytes is lowered with the tables: \<^verbatim>\<open>x.g\<close>, U+0130, \<^verbatim>\<open>f\<close> is an
  image name when the tables lower U+0130 (the bytes \<open>C4 B0\<close>) to \<^verbatim>\<open>i\<close>, as those
  of Go do.
\<close>

lemma isImage_unicode:
  "unicode_lower e [CHR 0xC4, CHR 0xB0] = ''i'' \<Longrightarrow>
     isImage e (''x.g'' @ [CHR 0xC4, CHR 0xB0] @ ''f'')"
  by (simp add: isImage_def Ext_def ToLower_def lower_char_def is_ascii_def)

lemma label_dirs_twins:
  "label_dirs e tree_twins =
     [([''a'', ''cat''], [''x.png'']), ([''cat''], [''y.png'']), ([''dog''], [''z.png''])]"
  by (simp add: label_dirs_def tree_twins_def isImage_examples)

lemma findImages_twins:
  "findImages env0 ''twins'' = Returned [(''cat'', [''y.png'']), (''dog'', [''z.png''])]"
  by (simp add: findImages_def env0_def tree_twins_def walkFn_def Base_def isImage_examples)

section \<open>Properties of main\<close>

subsection \<open>No images below the root\<close>

lemma main_reaches_step2:
  assumes "flag_Parse False False argv = Parsed False False args"
    and "imagesPath = (if length args > 0 then args ! 0 else OptionalPathToImagesDefault)"
    and "annotationFile =
           (if length args = 2 then args ! 1 else OptionalAnnotationsFilenameDefault)"
    and "isDirectory e imagesPath"
    and "isDirectory e (fp_Dir e annotationFile)"
  shows "main e argv =
           main_step2 e [Stat imagesPath, Stat (fp_Dir e annotationFile)] imagesPath annotationFile"
  using assms(4,5) unfolding assms(2,3)
  by (simp add: main_def assms(1) Let_def)

lemma label_dirs_empty:
  assumes "\<forall>(p, d) \<in> set (subdirs [] t).
             p \<noteq> [] \<longrightarrow> (\<forall>c \<in> set (dir_entries d). \<not> isImage e (name_of c))"
  shows "label_dirs e t = []"
  using assms by (auto simp: label_dirs_def filter_empty_conv)

text \<open>
  Claim C3, as amended. Take a run that reaches the scan (the flags parse, neither
  \<^verbatim>\<open>-v\<close> nor \<^verbatim>\<open>-h\<close> is set, and both directories exist). If no directory below the
  root lists an entry, file or directory, whose name has an image extension, the run
  ends with ExitImagesFolderEmpty, which is 2; it opens no image and writes no file, and
  all it does is the two directory checks, the walk and one report. The report is the
  text \<^verbatim>\<open>Error: No images found in subdirectories.\<close> when every directory of the tree
  can be listed, and the permission error of the walk otherwise.
\<close>

theorem main_no_images:
  assumes "flag_Parse False False argv = Parsed False False args"
    and "imagesPath = (if length args > 0 then args ! 0 else OptionalPathToImagesDefault)"
    and "annotationFile =
           (if length args = 2 then args ! 1 else OptionalAnnotationsFilenameDefault)"
    and "isDirectory e imagesPath"
    and "isDirectory e (fp_Dir e annotationFile)"
    and "fs e imagesPath = Some t"
    and "\<forall>(p, d) \<in> set (subdirs [] t).
           p \<noteq> [] \<longrightarrow> (\<forall>c \<in> set (dir_entries d). \<not> isImage e (name_of c))"
  shows "main e argv =
           ([Stat imagesPath, Stat (fp_Dir e annotationFile), Walk imagesPath,
             (if list_all (\<lambda>(p, d). listable d) (subdirs [] t)
              then Stdout ''Error: No images found in subdirectories.''
              else StdoutErr ErrPermission)],
            ExitImagesFolderEmpty) \<and>
         ExitImagesFolderEmpty = 2 \<and>
         opens (fst (main e argv)) = [] \<and> writes (fst (main e argv)) = []"
proof -
  note m = main_reaches_step2[OF assms(1-5)]
  have w: "walk e [] t [] =
             (if list_all (\<lambda>(p, d). listable d) (subdirs [] t) then Inr [] else Inl ErrPermission)"
    using label_dirs_empty[OF assms(7)] by (simp add: walk_result(1) label_dirs_def)
  show ?thesis
    unfolding m
    by (simp add: main_step2_def findImages_def assms(6) w ExitImagesFolderEmpty_def)
qed

text \<open>
  Claim C3, as amended, on \<open>empty\<close>, whose two subdirectories hold a text file and
  nothing (the image directly in the root is not in a subdirectory).
\<close>

theorem main_no_images_witness:
  "flag_Parse False False [''empty''] = Parsed False False [''empty''] \<and>
   isDirectory env0 ''empty'' \<and> isDirectory env0 (fp_Dir env0 ''vott-coco-annotations.json'') \<and>
   fs env0 ''empty'' = Some tree_empty \<and>
   subdirs [] tree_empty =
     [([], tree_empty), ([''cat''], Dir ''cat'' [File ''notes.txt'' Undecodable]),
      ([''dog''], Dir ''dog'' [])] \<and>
   \<not> isImage env0 ''notes.txt'' \<and>
   main env0 [''empty''] =
     ([Stat ''empty'', Stat ''.'', Walk ''empty'',
       Stdout ''Error: No images found in subdirectories.''], 2) \<and>
   opens (fst (main env0 [''empty''])) = [] \<and> writes (fst (main env0 [''empty''])) = []"
proof -
  have 1: "flag_Parse False False [''empty''] = Parsed False False [''empty'']" by simp
  have 2: "''empty'' = (if length [''empty''] > 0 then [''empty''] ! 0 else OptionalPathToImagesDefault)"
    by simp
  have 3: "''vott-coco-annotations.json'' =
      (if length [''empty''] = 2 then [''empty''] ! 1 else OptionalAnnotationsFilenameDefault)"
    by (simp add: OptionalAnnotationsFilenameDefault_def)
  have 4: "isDirectory env0 ''empty''" by (simp add: isDirectory_def env0_def tree_empty_def)
  have 5: "isDirectory env0 (fp_Dir env0 ''vott-coco-annotations.json'')"
    by (simp add: isDirectory_def env0_def)
  have 6: "fs env0 ''empty'' = Some tree_empty" by (simp add: env0_def)
  have s: "subdirs [] tree_empty =
     [([], tree_empty), ([''cat''], Dir ''cat'' [File ''notes.txt'' Undecodable]),
      ([''dog''], Dir ''dog'' [])]"
    by (simp add: tree_empty_def)
  have 7: "\<forall>(p, d) \<in> set (subdirs [] tree_empty).
           p \<noteq> [] \<longrightarrow> (\<forall>c \<in> set (dir_entries d). \<not> isImage env0 (name_of c))"
    unfolding s by (simp add: isImage_examples)
  have 8: "list_all (\<lambda>(p, d). listable d) (subdirs [] tree_empty)"
    unfolding s by (simp add: tree_empty_def)
  have d: "fp_Dir env0 ''vott-coco-annotations.json'' = ''.''" by (simp add: env0_def)
  from main_no_images[OF 1 2 3 4 5 6 7] have
    "main env0 [''empty''] =
     ([Stat ''empty'', Stat ''.'', Walk ''empty'',
       Stdout ''Error: No images found in subdirectories.''], 2) \<and>
     opens (fst (main env0 [''empty''])) = [] \<and> writes (fst (main env0 [''empty''])) = []"
    unfolding d by (simp only: 8 if_True) simp
  with 1 4 5 6 s show ?thesis by (simp add: isImage_examples)
qed

text \<open>
  On \<open>locked\<close> the directory \<^verbatim>\<open>dog\<close> cannot be listed: the report is the error of the
  walk, the exit code is the same.
\<close>

lemma main_locked:
  "main env0 [''locked''] =
     ([Stat ''locked'', Stat ''.'', Walk ''locked'', StdoutErr ErrPermission], 2)"
  by (simp add: main_def Let_def isDirectory_def env0_def tree_locked_def main_step2_def
      findImages_def walkFn_def isImage_examples ExitImagesFolderEmpty_def)

text \<open>
  Claim C3 as stated fails on \<open>imgdir\<close>, where no subdirectory holds a file with an image
  extension but \<^verbatim>\<open>cat\<close> holds a directory named \<^verbatim>\<open>sub.png\<close>: listImages tests the name
  of every entry, so the scan returns the label \<^verbatim>\<open>cat\<close> with that name, and the run
  does proceed to asset building, opens the directory as an image and ends with the
  error of the decoder.
\<close>

theorem main_no_images_counterexample:
  "image_files env0 tree_imgdir = [] \<and>
   fs env0 ''imgdir'' = Some tree_imgdir \<and>
   findImages env0 ''imgdir'' = Returned [(''cat'', [''sub.png''])] \<and>
   main env0 [''imgdir''] =
     ([Stat ''imgdir'', Stat ''.'', Walk ''imgdir'', Open [''cat'', ''sub.png''],
       StdoutErr ErrFormat], 2)"
proof -
  have f: "findImages env0 ''imgdir'' = Returned [(''cat'', [''sub.png''])]"
    by (simp add: findImages_def env0_def tree_imgdir_def walkFn_def Base_def isImage_examples)
  have i: "image_files env0 tree_imgdir = []"
    by (simp add: image_files_def tree_imgdir_def)
  have g: "generateVottEntries env0 (range_seed env0 1) 0 ''imgdir'' [(''cat'', [''sub.png''])] =
             (\<lparr>entries = [], drawn = 0, opened = [[''cat'', ''sub.png'']]\<rparr>, Some ErrFormat)"
    by (simp add: generateVottEntries_def env0_def open_DecodeConfig_def tree_imgdir_def
        imgRelativePath_def)
  have m: "main env0 [''imgdir''] =
             main_step2 env0 [Stat ''imgdir'', Stat ''.''] ''imgdir'' ''vott-coco-annotations.json''"
    by (simp add: main_def Let_def isDirectory_def env0_def tree_imgdir_def
        OptionalAnnotationsFilenameDefault_def)
  have "main env0 [''imgdir''] =
     ([Stat ''imgdir'', Stat ''.'', Walk ''imgdir'', Open [''cat'', ''sub.png''],
       StdoutErr ErrFormat], 2)"
    unfolding m using g
    by (simp add: main_step2_def f ExitImagesFolderEmpty_def)
  with f i show ?thesis by (simp add: env0_def)
qed

subsection \<open>The version flag\<close>

text \<open>
  Claim C6. The README lists the options \<^verbatim>\<open>-v or --version\<close>, and the claim has both
  print the version and exit with 0. main registers the flag \<^verbatim>\<open>v\<close> only: on the
  command line \<^verbatim>\<open>--version\<close> the flag package reports a flag that is not defined,
  prints the usage text and exits with status 2, and no version is printed.
\<close>

theorem main_long_version_flag:
  "main e [''--version''] = ([FlagError (NotDefined ''version''), Usage], 2)"
  by (simp add: main_def split_value_def)

text \<open>With \<^verbatim>\<open>-v\<close> the run prints the version and does nothing else.\<close>

lemma main_short_version_flag:
  "main e [''-v''] = ([Stdout (''1'' @ nl)], 0)"
  by (simp add: main_def split_value_def Version_def)

text \<open>So does every command line whose flags parse and set \<^verbatim>\<open>v\<close>.\<close>

lemma main_version_flag_set:
  "flag_Parse False False argv = Parsed True h args \<Longrightarrow> main e argv = ([Stdout (Version @ nl)], 0)"
  by (simp add: main_def)

section \<open>Properties of generateVottEntries\<close>

subsection \<open>What the loops open and what they append\<close>

text \<open>
  The paths opened are those of an initial segment of the pairs, in the order of the
  loops; every pair of the segment but the last was decoded; when no error is returned
  the segment is the whole list.
\<close>

lemma image_pairs_Cons:
  "image_pairs ((label, images) # ls) = map (Pair label) images @ image_pairs ls"
  by (simp add: image_pairs_def)

lemma images_loop_trace:
  "images_loop e root label images b = (b', r) \<Longrightarrow>
     \<exists>done rest. map (Pair label) images = done @ rest \<and>
       opened b' = opened b @ map pair_path done \<and>
       (\<forall>x \<in> set (butlast done). decodes e root x) \<and>
       (r = None \<longrightarrow> rest = [] \<and> (\<forall>x \<in> set done. decodes e root x))"
proof (induction images arbitrary: b)
  case Nil
  then show ?case by simp
next
  case (Cons f images)
  show ?case
  proof (cases "fp_Abs e (fp_Join e [root, label, f])")
    case (Inl err)
    with Cons.prems have "b' = b" "r = Some err" by simp_all
    then show ?thesis
      by (intro exI[of _ "[]"] exI[of _ "map (Pair label) (f # images)"]) simp
  next
    case (Inr abs)
    let ?b1 = "b\<lparr>opened := opened b @ [imgRelativePath label f]\<rparr>"
    show ?thesis
    proof (cases "open_DecodeConfig e root (imgRelativePath label f)")
      case (Inl err)
      with Cons.prems Inr have "b' = ?b1" "r = Some err" by (simp_all add: Let_def)
      then show ?thesis
        by (intro exI[of _ "[(label, f)]"] exI[of _ "map (Pair label) images"])
           (simp add: pair_path_def)
    next
      case (Inr wh)
      obtain w h where wh: "wh = (w, h)" by (cases wh)
      from Cons.prems \<open>fp_Abs e (fp_Join e [root, label, f]) = Inr abs\<close> Inr wh
      obtain b2 where b2: "images_loop e root label images b2 = (b', r)"
        "opened b2 = opened b @ [imgRelativePath label f]"
        by (auto simp: Let_def)
      from Cons.IH[OF b2(1)] obtain dn rest where
        d: "map (Pair label) images = dn @ rest"
          "opened b' = opened b2 @ map pair_path dn"
          "\<forall>x \<in> set (butlast dn). decodes e root x"
          "r = None \<longrightarrow> rest = [] \<and> (\<forall>x \<in> set dn. decodes e root x)"
        by blast
      have dec: "decodes e root (label, f)"
        using Inr by (simp add: decodes_def pair_path_def)
      have bl: "set (butlast ((label, f) # dn)) \<subseteq> insert (label, f) (set (butlast dn))"
        by (cases dn) auto
      show ?thesis
        using d dec bl b2(2)
        by (intro exI[of _ "(label, f) # dn"] exI[of _ rest])
           (auto simp: pair_path_def)
    qed
  qed
qed

lemma set_butlast_append:
  "set (butlast (xs @ ys)) \<subseteq> set xs \<union> set (butlast ys)"
  by (cases ys) (auto simp: butlast_append dest: in_set_butlastD)

lemma labels_loop_trace:
  "labels_loop e root ls b = (b', r) \<Longrightarrow>
     \<exists>done rest. image_pairs ls = done @ rest \<and>
       opened b' = opened b @ map pair_path done \<and>
       (\<forall>x \<in> set (butlast done). decodes e root x) \<and>
       (r = None \<longrightarrow> rest = [] \<and> (\<forall>x \<in> set done. decodes e root x))"
proof (induction ls arbitrary: b)
  case Nil
  then show ?case by (simp add: image_pairs_def)
next
  case (Cons l ls)
  obtain label images where l: "l = (label, images)" by (cases l)
  obtain b1 r1 where i: "images_loop e root label images b = (b1, r1)"
    by (cases "images_loop e root label images b")
  from images_loop_trace[OF i] obtain d1 rest1 where
    d1: "map (Pair label) images = d1 @ rest1"
      "opened b1 = opened b @ map pair_path d1"
      "\<forall>x \<in> set (butlast d1). decodes e root x"
      "r1 = None \<longrightarrow> rest1 = [] \<and> (\<forall>x \<in> set d1. decodes e root x)"
    by blast
  show ?case
  proof (cases r1)
    case (Some err)
    with Cons.prems l i have "b' = b1" "r = Some err" by simp_all
    with d1 show ?thesis
      by (intro exI[of _ d1] exI[of _ "rest1 @ image_pairs ls"])
         (simp add: l image_pairs_Cons)
  next
    case None
    with Cons.prems l i have "labels_loop e root ls b1 = (b', r)" by simp
    from Cons.IH[OF this] obtain d2 rest2 where
      d2: "image_pairs ls = d2 @ rest2"
        "opened b' = opened b1 @ map pair_path d2"
        "\<forall>x \<in> set (butlast d2). decodes e root x"
        "r = None \<longrightarrow> rest2 = [] \<and> (\<forall>x \<in> set d2. decodes e root x)"
      by blast
    from None d1 have all1: "rest1 = []" "\<forall>x \<in> set d1. decodes e root x" by simp_all
    have "\<forall>x \<in> set (butlast (d1 @ d2)). decodes e root x"
      using set_butlast_append[of d1 d2] all1(2) d2(3) by blast
    with d1 d2 all1 show ?thesis
      by (intro exI[of _ "d1 @ d2"] exI[of _ rest2])
         (auto simp: l image_pairs_Cons)
  qed
qed


text \<open>
  Every entry appended was built for a pair of the list; when no error is returned there
  is one entry for each pair, in order.
\<close>

lemma images_loop_entries:
  "images_loop e root label images b = (b', r) \<Longrightarrow>
     \<exists>new. entries b' = entries b @ new \<and>
       (\<forall>a \<in> set new. Label a = label \<and> Asset.Name a \<in> set images \<and>
          built e root a (Label a, Asset.Name a)) \<and>
       (r = None \<longrightarrow> map (\<lambda>a. (Label a, Asset.Name a)) new = map (Pair label) images)"
proof (induction images arbitrary: b)
  case Nil
  then show ?case by simp
next
  case (Cons f images)
  show ?case
  proof (cases "fp_Abs e (fp_Join e [root, label, f])")
    case (Inl err)
    with Cons.prems have "b' = b" "r = Some err" by simp_all
    then show ?thesis by simp
  next
    case (Inr abs)
    show ?thesis
    proof (cases "open_DecodeConfig e root (imgRelativePath label f)")
      case (Inl err)
      with Cons.prems Inr have "entries b' = entries b" "r = Some err"
        by (auto simp: Let_def)
      then show ?thesis by simp
    next
      case (Inr wh)
      obtain w h where wh: "wh = (w, h)" by (cases wh)
      define entry where "entry =
        \<lparr>Format = TrimPrefix (Ext f) ''.'', Asset.ID = uuid e (drawn b), Asset.Name = f,
         Path = ''file:'' @ fp_ToSlash e abs, Size = \<lparr>Size.Width = w, Size.Height = h\<rparr>,
         State = 0, Asset.Type = 0, Label = label\<rparr>"
      from Cons.prems \<open>fp_Abs e (fp_Join e [root, label, f]) = Inr abs\<close> Inr wh
      obtain b2 where b2: "images_loop e root label images b2 = (b', r)"
        "entries b2 = entries b @ [entry]"
        by (auto simp: Let_def entry_def)
      from Cons.IH[OF b2(1)] obtain new where
        n: "entries b' = entries b2 @ new"
          "\<forall>a \<in> set new. Label a = label \<and> Asset.Name a \<in> set images \<and>
             built e root a (Label a, Asset.Name a)"
          "r = None \<longrightarrow> map (\<lambda>a. (Label a, Asset.Name a)) new = map (Pair label) images"
        by blast
      have be: "built e root entry (label, f)"
        using Inr wh by (simp add: built_def entry_def pair_path_def)
      show ?thesis
        using n be b2(2)
        by (intro exI[of _ "entry # new"]) (auto simp: entry_def)
    qed
  qed
qed

lemma labels_loop_entries:
  "labels_loop e root ls b = (b', r) \<Longrightarrow>
     \<exists>new. entries b' = entries b @ new \<and>
       (\<forall>a \<in> set new. (Label a, Asset.Name a) \<in> set (image_pairs ls) \<and>
          built e root a (Label a, Asset.Name a)) \<and>
       (r = None \<longrightarrow> map (\<lambda>a. (Label a, Asset.Name a)) new = image_pairs ls)"
proof (induction ls arbitrary: b)
  case Nil
  then show ?case by (simp add: image_pairs_def)
next
  case (Cons l ls)
  obtain label images where l: "l = (label, images)" by (cases l)
  obtain b1 r1 where i: "images_loop e root label images b = (b1, r1)"
    by (cases "images_loop e root label images b")
  from images_loop_entries[OF i] obtain new1 where
    n1: "entries b1 = entries b @ new1"
      "\<forall>a \<in> set new1. Label a = label \<and> Asset.Name a \<in> set images \<and>
             built e root a (Label a, Asset.Name a)"
      "r1 = None \<longrightarrow> map (\<lambda>a. (Label a, Asset.Name a)) new1 = map (Pair label) images"
    by blast
  show ?case
  proof (cases r1)
    case (Some err)
    with Cons.prems l i have "b' = b1" "r = Some err" by simp_all
    with n1 show ?thesis
      by (intro exI[of _ new1]) (auto simp: l image_pairs_Cons)
  next
    case None
    with Cons.prems l i have "labels_loop e root ls b1 = (b', r)" by simp
    from Cons.IH[OF this] obtain new2 where
      n2: "entries b' = entries b1 @ new2"
        "\<forall>a \<in> set new2. (Label a, Asset.Name a) \<in> set (image_pairs ls) \<and>
             built e root a (Label a, Asset.Name a)"
        "r = None \<longrightarrow> map (\<lambda>a. (Label a, Asset.Name a)) new2 = image_pairs ls"
      by blast
    from n1 n2 None show ?thesis
      by (intro exI[of _ "new1 @ new2"]) (auto simp: l image_pairs_Cons)
  qed
qed

lemma generateVottEntries_trace:
  assumes "generateVottEntries e cs n root labels = (b, r)"
  shows "\<exists>done rest. image_pairs (range_order cs labels) = done @ rest \<and>
       opened b = map pair_path done \<and>
       (\<forall>x \<in> set (butlast done). decodes e root x) \<and>
       (r = None \<longrightarrow> rest = [] \<and> (\<forall>x \<in> set done. decodes e root x))"
  using labels_loop_trace[OF assms[unfolded generateVottEntries_def]] by simp

lemma generateVottEntries_entries:
  assumes "generateVottEntries e cs n root labels = (b, r)"
  shows "(\<forall>a \<in> set (entries b).
            (Label a, Asset.Name a) \<in> set (image_pairs (range_order cs labels)) \<and>
            built e root a (Label a, Asset.Name a)) \<and>
       (r = None \<longrightarrow>
          map (\<lambda>a. (Label a, Asset.Name a)) (entries b) = image_pairs (range_order cs labels))"
  using labels_loop_entries[OF assms[unfolded generateVottEntries_def]] by simp

lemma set_image_pairs:
  "set (image_pairs ls) = {(label, f). \<exists>images. (label, images) \<in> set ls \<and> f \<in> set images}"
  by (auto simp: image_pairs_def)


subsection \<open>The format of an asset\<close>

lemma ext_scan_dot: "ext_scan cs seen = [] \<or> (\<exists>rest. ext_scan cs seen = CHR ''.'' # rest)"
  by (induction cs arbitrary: seen) auto

lemma ToLower_dot: "ToLower e (CHR ''.'' # rest) = CHR ''.'' # ToLower e rest"
  by (simp add: ToLower_def is_ascii_def lower_char_def)

lemma isImage_Ext:
  assumes "isImage e name"
  shows "Ext name = ''.'' @ TrimPrefix (Ext name) ''.'' \<and>
         ToLower e (TrimPrefix (Ext name) ''.'') \<in> {''png'', ''jpg'', ''jpeg'', ''gif'', ''bmp''}"
proof -
  from assms have ne: "Ext name \<noteq> []"
    by (auto simp: isImage_def ToLower_def)
  with ext_scan_dot[of "rev name" "[]"] obtain rest where r: "Ext name = CHR ''.'' # rest"
    by (auto simp: Ext_def)
  from assms have "ToLower e (Ext name) \<in> {''.png'', ''.jpg'', ''.jpeg'', ''.gif'', ''.bmp''}"
    by (simp add: isImage_def Let_def)
  then have "ToLower e rest \<in> {''png'', ''jpg'', ''jpeg'', ''gif'', ''bmp''}"
    by (simp add: r ToLower_dot)
  then show ?thesis
    by (simp add: r TrimPrefix_def)
qed

text \<open>
  Claim C5, as amended. The format of every asset built is the extension of its file name
  without the leading dot, in the letter case the name has: for an image name the
  extension is the dot followed by the format, and the format is one of png, jpg, jpeg,
  gif, bmp once it is lowercased (not before).
\<close>

theorem generateVottEntries_format:
  assumes "generateVottEntries e cs n root labels = (b, r)"
  shows "\<forall>a \<in> set (entries b).
           Format a = TrimPrefix (Ext (Asset.Name a)) ''.'' \<and>
           (isImage e (Asset.Name a) \<longrightarrow>
              Ext (Asset.Name a) = ''.'' @ Format a \<and>
              ToLower e (Format a) \<in> {''png'', ''jpg'', ''jpeg'', ''gif'', ''bmp''})"
proof
  fix a assume "a \<in> set (entries b)"
  with generateVottEntries_entries[OF assms] have "built e root a (Label a, Asset.Name a)"
    by blast
  then have f: "Format a = TrimPrefix (Ext (Asset.Name a)) ''.''"
    by (simp add: built_def)
  show "Format a = TrimPrefix (Ext (Asset.Name a)) ''.'' \<and>
           (isImage e (Asset.Name a) \<longrightarrow>
              Ext (Asset.Name a) = ''.'' @ Format a \<and>
              ToLower e (Format a) \<in> {''png'', ''jpg'', ''jpeg'', ''gif'', ''bmp''})"
    using isImage_Ext[of e "Asset.Name a"] unfolding f by blast
qed

text \<open>The run on \<open>upper\<close>, whose only image is \<^verbatim>\<open>PHOTO.JPG\<close>.\<close>

lemma entries_upper:
  "generateVottEntries env0 [] 0 ''upper'' [(''cat'', [''PHOTO.JPG''])] =
     (\<lparr>entries =
         [\<lparr>Format = ''JPG'', Asset.ID = ''u'', Asset.Name = ''PHOTO.JPG'',
           Path = ''file:/home/user/upper/cat/PHOTO.JPG'',
           Size = \<lparr>Size.Width = 640, Size.Height = 480\<rparr>, State = 0, Asset.Type = 0,
           Label = ''cat''\<rparr>],
       drawn = 1, opened = [[''cat'', ''PHOTO.JPG'']]\<rparr>, None)"
  by (simp add: generateVottEntries_def env0_def tree_upper_def open_DecodeConfig_def
      imgRelativePath_def Ext_def TrimPrefix_def)

lemma findImages_upper: "findImages env0 ''upper'' = Returned [(''cat'', [''PHOTO.JPG''])]"
  by (simp add: findImages_def env0_def tree_upper_def walkFn_def Base_def isImage_examples)

text \<open>
  Claim C5 as stated fails: line 263 does not lowercase the extension. The scanner finds
  \<^verbatim>\<open>PHOTO.JPG\<close>, and the asset built for it has the format \<^verbatim>\<open>JPG\<close>, where the
  claim has \<^verbatim>\<open>jpg\<close>.
\<close>

theorem generateVottEntries_format_counterexample:
  "findImages env0 ''upper'' = Returned [(''cat'', [''PHOTO.JPG''])] \<and>
   map Format (entries (fst (generateVottEntries env0 [] 0 ''upper'' [(''cat'', [''PHOTO.JPG''])])))
     = [''JPG''] \<and>
   TrimPrefix (ToLower env0 (Ext ''PHOTO.JPG'')) ''.'' = ''jpg''"
  by (simp add: findImages_upper entries_upper)
     (simp add: Ext_def ToLower_def lower_char_def is_ascii_def TrimPrefix_def)

text \<open>The amended claim C5 on \<^verbatim>\<open>PHOTO.JPG\<close>.\<close>

theorem generateVottEntries_format_witness:
  "generateVottEntries env0 [] 0 ''upper'' [(''cat'', [''PHOTO.JPG''])] =
     (fst (generateVottEntries env0 [] 0 ''upper'' [(''cat'', [''PHOTO.JPG''])]), None) \<and>
   map Asset.Name (entries (fst (generateVottEntries env0 [] 0 ''upper'' [(''cat'', [''PHOTO.JPG''])])))
     = [''PHOTO.JPG''] \<and>
   isImage env0 ''PHOTO.JPG'' \<and>
   map Format (entries (fst (generateVottEntries env0 [] 0 ''upper'' [(''cat'', [''PHOTO.JPG''])])))
     = [''JPG''] \<and>
   Ext ''PHOTO.JPG'' = ''.'' @ ''JPG'' \<and>
   ToLower env0 ''JPG'' \<in> {''png'', ''jpg'', ''jpeg'', ''gif'', ''bmp''}"
proof -
  have h: "generateVottEntries env0 [] 0 ''upper'' [(''cat'', [''PHOTO.JPG''])] =
     (fst (generateVottEntries env0 [] 0 ''upper'' [(''cat'', [''PHOTO.JPG''])]), None)"
    by (simp add: entries_upper)
  from generateVottEntries_format[OF h] h show ?thesis
    by (simp add: entries_upper isImage_examples)
qed

section \<open>Properties of main: building and writing\<close>

subsection \<open>Reading the events\<close>

lemma opens_append: "opens (xs @ ys) = opens xs @ opens ys"
  by (induction xs rule: opens.induct) simp_all

lemma writes_append: "writes (xs @ ys) = writes xs @ writes ys"
  by (induction xs rule: writes.induct) simp_all

lemma opens_map_Open: "opens (map Open ps) = ps"
  by (induction ps) simp_all

lemma writes_map_Open: "writes (map Open ps) = []"
  by (induction ps) simp_all

lemma opens_map_Stdout: "opens (map (\<lambda>x. Stdout (f x)) xs) = []"
  by (induction xs) simp_all

lemma writes_map_Stdout: "writes (map (\<lambda>x. Stdout (f x)) xs) = []"
  by (induction xs) simp_all

lemma opens_prints:
  "opens (concat (map (\<lambda>(label, images). map (\<lambda>image. Stdout (f label image)) images) ls)) = []"
  by (induction ls) (auto simp: opens_append opens_map_Stdout)

lemma writes_prints:
  "writes (concat (map (\<lambda>(label, images). map (\<lambda>image. Stdout (f label image)) images) ls)) = []"
  by (induction ls) (auto simp: writes_append writes_map_Stdout)

subsection \<open>An image that cannot be opened or decoded\<close>

lemma failing_not_passed:
  assumes "pairs = dn @ rest" "pairs = pre @ x # post"
    and "\<forall>y \<in> set (butlast dn). P y" "\<not> P x"
  shows "length dn \<le> Suc (length pre)"
proof (rule ccontr)
  assume "\<not> length dn \<le> Suc (length pre)"
  then have k: "length pre < length (butlast dn)" by simp
  then have k': "length pre < length dn" by simp
  from k have "butlast dn ! length pre = dn ! length pre"
    by (simp add: nth_butlast)
  also have "\<dots> = pairs ! length pre"
    using k' by (simp add: assms(1) nth_append)
  also have "\<dots> = x"
    by (simp add: assms(2))
  finally have "x \<in> set (butlast dn)"
    using k nth_mem by metis
  with assms(3,4) show False by blast
qed

text \<open>
  Claim C4. Take a run that reaches the build (the flags parse, neither \<^verbatim>\<open>-v\<close> nor
  \<^verbatim>\<open>-h\<close> is set, both directories exist, the scan returns a map), and let \<open>pairs\<close>
  be the images in the order the two loops visit them. If some image \<open>x\<close> of \<open>pairs\<close>
  cannot be opened or decoded, the run ends with exit code 2 after printing an error and
  writes no file. The images it opened are an initial segment of \<open>pairs\<close> in which
  every image but the last was decoded, and no image after an occurrence of \<open>x\<close> is
  opened: the loops stop at the first failure and skip nothing.
\<close>

theorem main_image_failure:
  assumes "flag_Parse False False argv = Parsed False False args"
    and "imagesPath = (if length args > 0 then args ! 0 else OptionalPathToImagesDefault)"
    and "annotationFile =
           (if length args = 2 then args ! 1 else OptionalAnnotationsFilenameDefault)"
    and "isDirectory e imagesPath"
    and "isDirectory e (fp_Dir e annotationFile)"
    and "findImages e imagesPath = Returned labels"
    and "pairs = image_pairs (range_order (range_seed e 1) labels)"
    and "x \<in> set pairs"
    and "\<not> decodes e imagesPath x"
  shows "snd (main e argv) = ExitImagesFolderEmpty \<and> ExitImagesFolderEmpty = 2 \<and>
         writes (fst (main e argv)) = [] \<and>
         (\<exists>err. last (fst (main e argv)) = StdoutErr err) \<and>
         (\<exists>done rest. pairs = done @ rest \<and>
            opens (fst (main e argv)) = map pair_path done \<and>
            (\<forall>y \<in> set (butlast done). decodes e imagesPath y)) \<and>
         (\<forall>pre post. pairs = pre @ x # post \<longrightarrow>
            length (opens (fst (main e argv))) \<le> Suc (length pre))"
proof -
  note m = main_reaches_step2[OF assms(1-5)]
  obtain b r where g: "generateVottEntries e (range_seed e 1) 0 imagesPath labels = (b, r)"
    by (cases "generateVottEntries e (range_seed e 1) 0 imagesPath labels")
  from generateVottEntries_trace[OF g] obtain dn rest where
    t: "pairs = dn @ rest" "opened b = map pair_path dn"
      "\<forall>y \<in> set (butlast dn). decodes e imagesPath y"
      "r = None \<longrightarrow> rest = [] \<and> (\<forall>y \<in> set dn. decodes e imagesPath y)"
    unfolding assms(7) by blast
  from t(1,4) assms(8,9) obtain err where r: "r = Some err"
    by (cases r) auto
  have run: "main e argv =
      ([Stat imagesPath, Stat (fp_Dir e annotationFile)] @ [Walk imagesPath] @
         map Open (opened b) @ [StdoutErr err], ExitImagesFolderEmpty)"
    unfolding m using g by (simp add: main_step2_def assms(6) r)
  have o: "opens (fst (main e argv)) = map pair_path dn"
    unfolding run by (simp add: opens_append opens_map_Open t(2)[symmetric])
  have w: "writes (fst (main e argv)) = []"
    unfolding run by (simp add: writes_append writes_map_Open)
  have l: "\<forall>pre post. pairs = pre @ x # post \<longrightarrow>
            length (opens (fst (main e argv))) \<le> Suc (length pre)"
    unfolding o using failing_not_passed[OF t(1) _ t(3) assms(9)] by simp
  from o w l t(1,3) show ?thesis
    unfolding run by (auto simp: ExitImagesFolderEmpty_def)
qed


lemma findImages_broken:
  "findImages env0 ''broken'' = Returned [(''cat'', [''a.jpg'', ''b.png'', ''c.gif''])]"
  by (simp add: findImages_def env0_def tree_broken_def walkFn_def Base_def isImage_examples)

text \<open>Claim C4 on \<open>broken\<close>: the second of three images has no decodable header.\<close>

theorem main_image_failure_witness:
  "flag_Parse False False [''broken''] = Parsed False False [''broken''] \<and>
   isDirectory env0 ''broken'' \<and>
   isDirectory env0 (fp_Dir env0 ''vott-coco-annotations.json'') \<and>
   findImages env0 ''broken'' = Returned [(''cat'', [''a.jpg'', ''b.png'', ''c.gif''])] \<and>
   image_pairs (range_order (range_seed env0 1) [(''cat'', [''a.jpg'', ''b.png'', ''c.gif''])]) =
     [(''cat'', ''a.jpg'')] @ (''cat'', ''b.png'') # [(''cat'', ''c.gif'')] \<and>
   \<not> decodes env0 ''broken'' (''cat'', ''b.png'') \<and>
   snd (main env0 [''broken'']) = 2 \<and>
   writes (fst (main env0 [''broken''])) = [] \<and>
   length (opens (fst (main env0 [''broken'']))) \<le> 2"
proof -
  have 1: "flag_Parse False False [''broken''] = Parsed False False [''broken'']" by simp
  have 2: "''broken'' =
      (if length [''broken''] > 0 then [''broken''] ! 0 else OptionalPathToImagesDefault)"
    by simp
  have 3: "''vott-coco-annotations.json'' =
      (if length [''broken''] = 2 then [''broken''] ! 1 else OptionalAnnotationsFilenameDefault)"
    by (simp add: OptionalAnnotationsFilenameDefault_def)
  have 4: "isDirectory env0 ''broken''" by (simp add: isDirectory_def env0_def tree_broken_def)
  have 5: "isDirectory env0 (fp_Dir env0 ''vott-coco-annotations.json'')"
    by (simp add: isDirectory_def env0_def)
  have 7: "[(''cat'', ''a.jpg'')] @ (''cat'', ''b.png'') # [(''cat'', ''c.gif'')] =
     image_pairs (range_order (range_seed env0 1) [(''cat'', [''a.jpg'', ''b.png'', ''c.gif''])])"
    by (simp add: image_pairs_def env0_def)
  have 8: "(''cat'', ''b.png'') \<in>
     set ([(''cat'', ''a.jpg'')] @ (''cat'', ''b.png'') # [(''cat'', ''c.gif'')])"
    by simp
  have 9: "\<not> decodes env0 ''broken'' (''cat'', ''b.png'')"
    by (simp add: decodes_def pair_path_def imgRelativePath_def open_DecodeConfig_def
        env0_def tree_broken_def)
  note c = main_image_failure[OF 1 2 3 4 5 findImages_broken 7 8 9]
  from c have a: "snd (main env0 [''broken'']) = 2" "writes (fst (main env0 [''broken''])) = []"
    by simp_all
  from c have "\<forall>pre post.
      [(''cat'', ''a.jpg'')] @ (''cat'', ''b.png'') # [(''cat'', ''c.gif'')] =
        pre @ (''cat'', ''b.png'') # post \<longrightarrow>
      length (opens (fst (main env0 [''broken'']))) \<le> Suc (length pre)"
    by blast
  then have "length (opens (fst (main env0 [''broken'']))) \<le> Suc (length [(''cat'', ''a.jpg'')])"
    by blast
  with a 1 4 5 findImages_broken 7 9 show ?thesis by simp
qed


subsection \<open>The labels of the assets are tags\<close>




lemma findImages_distinct:
  assumes "findImages e root = Returned labels"
  shows "distinct (map fst labels)"
proof -
  from assms obtain t where t: "fs e root = Some t"
    by (auto simp: findImages_def split: option.splits)
  show ?thesis
    unfolding findImages_Returned(1)[OF t assms]
    by (rule distinct_foldl_update) simp
qed






lemma tags_of_vott_model:
  "map Tag.Name (VottJsonModel.Tags (vott_model gen n assets tags)) = tags"
  by (simp add: vott_model_def add_tags_eq comp_def)













section \<open>Images in directories nested below a label directory\<close>

lemma resolve_append:
  "resolve t (p @ q) = (case resolve t p of None \<Rightarrow> None | Some d \<Rightarrow> resolve d q)"
proof (induction t p rule: resolve.induct)
  case (2 n cs x xs)
  then show ?case by (simp split: option.splits)
qed simp_all

lemma child_distinct:
  "distinct (map name_of cs) \<Longrightarrow> c \<in> set cs \<Longrightarrow> child (name_of c) cs = Some c"
  by (induction cs) auto

lemma child_exists: "f \<in> set (map name_of cs) \<Longrightarrow> child f cs \<noteq> None"
  by (induction cs) auto

lemma subdirs_resolve:
  "distinct_names t \<Longrightarrow> (p, d) \<in> set (subdirs q t) \<Longrightarrow>
     \<exists>p'. p = q @ p' \<and> resolve t p' = Some d"
  "distinct (map name_of cs) \<Longrightarrow> list_all distinct_names cs \<Longrightarrow>
     (p, d) \<in> set (subdirs_names q cs) \<Longrightarrow>
     \<exists>c \<in> set cs. \<exists>p'. p = q @ name_of c # p' \<and> resolve c p' = Some d"
proof (induction q t and q cs rule: subdirs_subdirs_names.induct)
  case (1 q n c)
  then show ?case by simp
next
  case (2 q n)
  then show ?case by simp
next
  case (3 q n cs)
  show ?case
  proof (cases "(p, d) = (q, Dir n cs)")
    case True
    then show ?thesis by simp
  next
    case False
    with "3.prems" have dn: "distinct (map name_of cs)" "list_all distinct_names cs"
      and m: "(p, d) \<in> set (subdirs_names q cs)"
      by auto
    from "3.IH"[OF dn m] obtain c p' where
      c: "c \<in> set cs" "p = q @ name_of c # p'" "resolve c p' = Some d"
      by blast
    with child_distinct[OF dn(1) c(1)] show ?thesis by simp
  qed
next
  case (4 q)
  then show ?case by simp
next
  case (5 q c cs)
  from "5.prems" have dc: "distinct_names c" and dn: "distinct (map name_of cs)"
    "list_all distinct_names cs"
    by simp_all
  from "5.prems"(3) consider "(p, d) \<in> set (subdirs (q @ [name_of c]) c)"
    | "(p, d) \<in> set (subdirs_names q cs)"
    by auto
  then show ?case
  proof cases
    case 1
    from "5.IH"(1)[OF dc 1] show ?thesis by auto
  next
    case 2
    from "5.IH"(2)[OF dn 2] show ?thesis by auto
  qed
qed

lemma label_dirs_mem:
  assumes "(p, images) \<in> set (label_dirs e t)"
  shows "\<exists>d. (p, d) \<in> set (subdirs [] t) \<and> p \<noteq> [] \<and>
           images = filter (isImage e) (map name_of (dir_entries d))"
  using assms by (auto simp: label_dirs_def)

lemma discovered_exists:
  assumes "distinct_names t" "(p, images) \<in> set (label_dirs e t)" "f \<in> set images"
  shows "resolve t (p @ [f]) \<noteq> None"
proof -
  from label_dirs_mem[OF assms(2)] obtain d where d: "(p, d) \<in> set (subdirs [] t)"
    "images = filter (isImage e) (map name_of (dir_entries d))"
    by blast
  from subdirs_resolve(1)[OF assms(1) d(1)] have r: "resolve t p = Some d" by simp
  from assms(3) d(2) have f: "f \<in> set (map name_of (dir_entries d))" by simp
  then obtain n cs where dd: "d = Dir n cs" by (cases d) auto
  with f have "child f cs \<noteq> None" by (simp add: child_exists)
  then show ?thesis
    by (auto simp: resolve_append r dd)
qed

text \<open>
  The builder works from the map alone: for a label and a file name of the map's list
  under it, the build fails or opens the path of the two and makes an asset of what it
  reads there; for a file name that is not in the list it opens no path and makes no
  asset.
\<close>

lemma kept_is_built:
  assumes "fs e root = Some t"
    and "generateVottEntries e cs n root labels = (b, r)"
    and "map_of labels l = Some kept"
    and "f \<in> set kept"
  shows "(resolve t [l, f] = None \<longrightarrow> r \<noteq> None) \<and>
         (r \<noteq> None \<or>
          [l, f] \<in> set (opened b) \<and>
          (\<exists>a \<in> set (entries b).
             Label a = l \<and> Asset.Name a = f \<and>
             open_DecodeConfig e root [l, f] =
               Inr (Size.Width (Size a), Size.Height (Size a))))"
proof -
  let ?pairs = "image_pairs (range_order cs labels)"
  from generateVottEntries_trace[OF assms(2)] obtain dn rest where
    t: "?pairs = dn @ rest" "opened b = map pair_path dn"
      "r = None \<longrightarrow> rest = [] \<and> (\<forall>x \<in> set dn. decodes e root x)"
    by blast
  from assms(3) have "(l, kept) \<in> set labels" by (rule map_of_SomeD)
  with assms(4) have x: "(l, f) \<in> set ?pairs"
    by (auto simp: set_image_pairs range_order_set)
  have succ: "[l, f] \<in> set (opened b) \<and>
           (\<exists>a \<in> set (entries b).
              Label a = l \<and> Asset.Name a = f \<and>
              open_DecodeConfig e root [l, f] =
                Inr (Size.Width (Size a), Size.Height (Size a))) \<and>
           decodes e root (l, f)" if rn: "r = None"
  proof -
    from rn t x have d: "(l, f) \<in> set dn" "decodes e root (l, f)" by auto
    then have o: "[l, f] \<in> set (opened b)"
      by (force simp: t(2) pair_path_def imgRelativePath_def)
    from generateVottEntries_entries[OF assms(2)] rn have
      e1: "\<forall>a \<in> set (entries b). built e root a (Label a, Asset.Name a)" and
      e2: "map (\<lambda>a. (Label a, Asset.Name a)) (entries b) = ?pairs"
      by simp_all
    from x e2 have "(l, f) \<in> (\<lambda>a. (Label a, Asset.Name a)) ` set (entries b)"
      by (metis set_map)
    then obtain a where a: "a \<in> set (entries b)" "Label a = l" "Asset.Name a = f"
      by auto
    with e1 have "built e root a (l, f)" by force
    then have "open_DecodeConfig e root [l, f] =
                Inr (Size.Width (Size a), Size.Height (Size a))"
      by (simp add: built_def pair_path_def imgRelativePath_def)
    with a o d(2) show ?thesis by blast
  qed
  have fail: "r \<noteq> None" if "resolve t [l, f] = None"
  proof
    assume "r = None"
    from succ[OF this] have "decodes e root (l, f)" by simp
    with that show False
      by (simp add: decodes_def pair_path_def imgRelativePath_def open_DecodeConfig_def assms(1))
  qed
  from succ fail show ?thesis by blast
qed

lemma dropped_is_absent:
  assumes "generateVottEntries e cs n root labels = (b, r)"
    and "distinct (map fst labels)"
    and "map_of labels l = Some kept"
    and "f \<notin> set kept"
  shows "[l, f] \<notin> set (opened b) \<and>
         (\<forall>a \<in> set (entries b). \<not> (Label a = l \<and> Asset.Name a = f))"
proof -
  let ?pairs = "image_pairs (range_order cs labels)"
  have no: "(l, f) \<notin> set ?pairs"
  proof
    assume "(l, f) \<in> set ?pairs"
    then obtain images where i: "(l, images) \<in> set labels" "f \<in> set images"
      by (auto simp: set_image_pairs range_order_set)
    from map_of_is_SomeI[OF assms(2) i(1)] assms(3) have "images = kept" by simp
    with i(2) assms(4) show False by simp
  qed
  from generateVottEntries_trace[OF assms(1)] obtain dn rest where
    t: "?pairs = dn @ rest" "opened b = map pair_path dn"
    by blast
  have "[l, f] \<notin> set (opened b)"
  proof
    assume "[l, f] \<in> set (opened b)"
    then obtain x where x: "x \<in> set dn" "pair_path x = [l, f]"
      unfolding t(2) by auto
    from x(2) have "x = (l, f)"
      by (cases x) (simp add: pair_path_def imgRelativePath_def)
    with x(1) t(1) no show False by simp
  qed
  moreover have "\<forall>a \<in> set (entries b). \<not> (Label a = l \<and> Asset.Name a = f)"
    using generateVottEntries_entries[OF assms(1)] no by auto
  ultimately show ?thesis by blast
qed

lemma label_dirs_kept:
  assumes "fs e root = Some t"
    and "findImages e root = Returned labels"
    and "(p, images) \<in> set (label_dirs e t)"
  shows "map_of labels (Base p) =
           Some (snd (last (filter (\<lambda>(q, images). Base q = Base p) (label_dirs e t))))"
proof -
  from assms(3) have "filter (\<lambda>(q, images). Base q = Base p) (label_dirs e t) \<noteq> []"
    by (auto simp: filter_empty_conv)
  then show ?thesis
    unfolding findImages_Returned(1)[OF assms(1,2)] map_of_foldl_update by simp
qed

text \<open>
  Claim C9, as amended. Let the scan of the tree at \<open>root\<close> return a map, and let \<open>f\<close>
  be an image name listed by a directory at the path \<open>p\<close> of two or more names below
  the root (in a tree with distinct names the file \<open>p/f\<close> exists). No run of the builder
  on the map opens \<open>p/f\<close>, and the path \<open>[Base p, f]\<close> is another one. The map has a
  list under \<open>Base p\<close>. If \<open>f\<close> is in that list, the builder works on the path
  \<open>[Base p, f]\<close>: the build fails if nothing is found there, and if the build does not
  fail, it opened that path and the asset built for the image has the size read there.
  If \<open>f\<close> is not in that list (a directory of the same base name visited later
  replaced the list), the builder opens no path for the image and builds no asset for
  it.
\<close>

theorem generateVottEntries_nested:
  assumes "fs e root = Some t"
    and "findImages e root = Returned labels"
    and "(p, images) \<in> set (label_dirs e t)"
    and "2 \<le> length p"
    and "f \<in> set images"
    and "generateVottEntries e cs n root labels = (b, r)"
  shows "(distinct_names t \<longrightarrow> resolve t (p @ [f]) \<noteq> None) \<and>
         [Base p, f] \<noteq> p @ [f] \<and>
         p @ [f] \<notin> set (opened b) \<and>
         (\<exists>kept. map_of labels (Base p) = Some kept \<and>
            (f \<in> set kept \<longrightarrow>
               (resolve t [Base p, f] = None \<longrightarrow> r \<noteq> None) \<and>
               (r \<noteq> None \<or>
                [Base p, f] \<in> set (opened b) \<and>
                (\<exists>a \<in> set (entries b).
                   Label a = Base p \<and> Asset.Name a = f \<and>
                   open_DecodeConfig e root [Base p, f] =
                     Inr (Size.Width (Size a), Size.Height (Size a))))) \<and>
            (f \<notin> set kept \<longrightarrow>
               [Base p, f] \<notin> set (opened b) \<and>
               (\<forall>a \<in> set (entries b). \<not> (Label a = Base p \<and> Asset.Name a = f))))"
proof -
  from generateVottEntries_trace[OF assms(6)] obtain dn rest where
    t: "opened b = map pair_path dn"
    by blast
  have len: "\<forall>q \<in> set (opened b). length q = 2"
    by (auto simp: t pair_path_def imgRelativePath_def)
  have 1: "distinct_names t \<longrightarrow> resolve t (p @ [f]) \<noteq> None"
    using discovered_exists[OF _ assms(3,5)] by blast
  have 2: "[Base p, f] \<noteq> p @ [f]"
  proof
    assume "[Base p, f] = p @ [f]"
    then have "length [Base p, f] = length (p @ [f])" by (rule arg_cong)
    with assms(4) show False by simp
  qed
  have 3: "p @ [f] \<notin> set (opened b)"
    using len assms(4) by auto
  define kept where
    "kept = snd (last (filter (\<lambda>(q, images). Base q = Base p) (label_dirs e t)))"
  have k: "map_of labels (Base p) = Some kept"
    unfolding kept_def by (rule label_dirs_kept[OF assms(1,2,3)])
  have 4: "f \<in> set kept \<longrightarrow>
               (resolve t [Base p, f] = None \<longrightarrow> r \<noteq> None) \<and>
               (r \<noteq> None \<or>
                [Base p, f] \<in> set (opened b) \<and>
                (\<exists>a \<in> set (entries b).
                   Label a = Base p \<and> Asset.Name a = f \<and>
                   open_DecodeConfig e root [Base p, f] =
                     Inr (Size.Width (Size a), Size.Height (Size a))))"
    by (rule impI) (rule kept_is_built[OF assms(1,6) k])
  have 5: "f \<notin> set kept \<longrightarrow>
               [Base p, f] \<notin> set (opened b) \<and>
               (\<forall>a \<in> set (entries b). \<not> (Label a = Base p \<and> Asset.Name a = f))"
    by (rule impI) (rule dropped_is_absent[OF assms(6) findImages_distinct[OF assms(2)] k])
  have 6: "\<exists>kept. map_of labels (Base p) = Some kept \<and>
            (f \<in> set kept \<longrightarrow>
               (resolve t [Base p, f] = None \<longrightarrow> r \<noteq> None) \<and>
               (r \<noteq> None \<or>
                [Base p, f] \<in> set (opened b) \<and>
                (\<exists>a \<in> set (entries b).
                   Label a = Base p \<and> Asset.Name a = f \<and>
                   open_DecodeConfig e root [Base p, f] =
                     Inr (Size.Width (Size a), Size.Height (Size a))))) \<and>
            (f \<notin> set kept \<longrightarrow>
               [Base p, f] \<notin> set (opened b) \<and>
               (\<forall>a \<in> set (entries b). \<not> (Label a = Base p \<and> Asset.Name a = f)))"
    by (rule exI[of _ kept]) (rule conjI[OF k conjI[OF 4 5]])
  show ?thesis
    by (rule conjI[OF 1 conjI[OF 2 conjI[OF 3 6]]])
qed

lemma label_dirs_nested: "label_dirs e tree_nested = [([''pets'', ''cat''], [''x.png''])]"
  by (simp add: label_dirs_def tree_nested_def isImage_examples)

lemma findImages_nested: "findImages env0 ''nested'' = Returned [(''cat'', [''x.png''])]"
  by (simp add: findImages_def env0_def tree_nested_def walkFn_def Base_def isImage_examples)

lemma label_dirs_shadow:
  "label_dirs e tree_shadow = [([''cat''], [''x.png'']), ([''pets'', ''cat''], [''x.png''])]"
  by (simp add: label_dirs_def tree_shadow_def isImage_examples)

lemma findImages_shadow: "findImages env0 ''shadow'' = Returned [(''cat'', [''x.png''])]"
  by (simp add: findImages_def env0_def tree_shadow_def walkFn_def Base_def isImage_examples)

text \<open>
  Claim C9, as amended, on \<open>nested\<close>, where nothing is at \<open>nested/cat/x.png\<close> and the
  build fails, and on \<open>shadow\<close>, where \<open>shadow/cat/x.png\<close> is another file and the
  build reads that one.
\<close>

theorem generateVottEntries_nested_witness:
  "fs env0 ''nested'' = Some tree_nested \<and>
   findImages env0 ''nested'' = Returned [(''cat'', [''x.png''])] \<and>
   ([''pets'', ''cat''], [''x.png'']) \<in> set (label_dirs env0 tree_nested) \<and>
   2 \<le> length [''pets'', ''cat''] \<and> ''x.png'' \<in> set [''x.png''] \<and>
   distinct_names tree_nested \<and>
   map_of [(''cat'', [''x.png''])] (Base [''pets'', ''cat'']) = Some [''x.png''] \<and>
   resolve tree_nested [''cat'', ''x.png''] = None \<and>
   resolve tree_nested [''pets'', ''cat'', ''x.png''] \<noteq> None \<and>
   snd (generateVottEntries env0 [] 0 ''nested'' [(''cat'', [''x.png''])]) \<noteq> None \<and>
   [''pets'', ''cat'', ''x.png'']
     \<notin> set (opened (fst (generateVottEntries env0 [] 0 ''nested'' [(''cat'', [''x.png''])]))) \<and>
   fs env0 ''shadow'' = Some tree_shadow \<and>
   findImages env0 ''shadow'' = Returned [(''cat'', [''x.png''])] \<and>
   ([''pets'', ''cat''], [''x.png'']) \<in> set (label_dirs env0 tree_shadow) \<and>
   snd (generateVottEntries env0 [] 0 ''shadow'' [(''cat'', [''x.png''])]) = None \<and>
   [''cat'', ''x.png'']
     \<in> set (opened (fst (generateVottEntries env0 [] 0 ''shadow'' [(''cat'', [''x.png''])]))) \<and>
   (\<exists>a \<in> set (entries (fst (generateVottEntries env0 [] 0 ''shadow'' [(''cat'', [''x.png''])]))).
      Label a = ''cat'' \<and> Asset.Name a = ''x.png'' \<and>
      open_DecodeConfig env0 ''shadow'' [''cat'', ''x.png''] =
        Inr (Size.Width (Size a), Size.Height (Size a)))"
proof -
  let ?gn = "generateVottEntries env0 [] 0 ''nested'' [(''cat'', [''x.png''])]"
  let ?gs = "generateVottEntries env0 [] 0 ''shadow'' [(''cat'', [''x.png''])]"
  have n1: "fs env0 ''nested'' = Some tree_nested" by (simp add: env0_def)
  have n3: "([''pets'', ''cat''], [''x.png'']) \<in> set (label_dirs env0 tree_nested)"
    by (simp add: label_dirs_nested)
  have l: "2 \<le> length [''pets'', ''cat'']" by simp
  have x: "''x.png'' \<in> set [''x.png'']" by simp
  have n6: "?gn = (fst ?gn, snd ?gn)" by simp
  have nd: "distinct_names tree_nested" by (simp add: tree_nested_def)
  have b: "Base [''pets'', ''cat''] = ''cat''" by (simp add: Base_def)
  have nr: "resolve tree_nested [''cat'', ''x.png''] = None" by (simp add: tree_nested_def)
  have s1: "fs env0 ''shadow'' = Some tree_shadow" by (simp add: env0_def)
  have s3: "([''pets'', ''cat''], [''x.png'']) \<in> set (label_dirs env0 tree_shadow)"
    by (simp add: label_dirs_shadow)
  have s6: "?gs = (fst ?gs, snd ?gs)" by simp
  have sn: "snd ?gs = None"
    by (simp add: generateVottEntries_def env0_def tree_shadow_def open_DecodeConfig_def
        imgRelativePath_def)
  note N = generateVottEntries_nested[OF n1 findImages_nested n3 l x n6]
  note S = generateVottEntries_nested[OF s1 findImages_shadow s3 l x s6]
  from N nd nr have "resolve tree_nested [''pets'', ''cat'', ''x.png''] \<noteq> None"
    "snd ?gn \<noteq> None" "[''pets'', ''cat'', ''x.png''] \<notin> set (opened (fst ?gn))"
    by (simp_all add: b)
  moreover
  from S sn have "[''cat'', ''x.png''] \<in> set (opened (fst ?gs))"
    "\<exists>a \<in> set (entries (fst ?gs)).
      Label a = ''cat'' \<and> Asset.Name a = ''x.png'' \<and>
      open_DecodeConfig env0 ''shadow'' [''cat'', ''x.png''] =
        Inr (Size.Width (Size a), Size.Height (Size a))"
    by (simp_all add: b)
  ultimately show ?thesis
    using n1 findImages_nested n3 nd nr s1 findImages_shadow s3 sn
    by (simp add: b)
qed

text \<open>
  Claim C9 as stated fails on \<open>twins\<close>. The scanner lists \<^verbatim>\<open>x.png\<close> in the nested
  directory \<^verbatim>\<open>a/cat\<close>, and the file is there; the directory \<^verbatim>\<open>cat\<close>, visited later,
  replaces the list. The builder computes no path for \<^verbatim>\<open>x.png\<close>: the build does not
  fail, and the two files it opens are the ones the scanner listed at those paths.
\<close>

theorem generateVottEntries_nested_counterexample:
  "([''a'', ''cat''], [''x.png'']) \<in> set (label_dirs env0 tree_twins) \<and>
   resolve tree_twins [''a'', ''cat'', ''x.png''] = Some (File ''x.png'' (Image 8 8)) \<and>
   findImages env0 ''twins'' = Returned [(''cat'', [''y.png'']), (''dog'', [''z.png''])] \<and>
   snd (generateVottEntries env0 [] 0 ''twins'' [(''cat'', [''y.png'']), (''dog'', [''z.png''])])
     = None \<and>
   opened (fst (generateVottEntries env0 [] 0 ''twins''
                  [(''cat'', [''y.png'']), (''dog'', [''z.png''])]))
     = [[''cat'', ''y.png''], [''dog'', ''z.png'']] \<and>
   map Asset.Name (entries (fst (generateVottEntries env0 [] 0 ''twins''
                  [(''cat'', [''y.png'']), (''dog'', [''z.png''])])))
     = [''y.png'', ''z.png''] \<and>
   resolve tree_twins [''cat'', ''y.png''] = Some (File ''y.png'' (Image 9 9)) \<and>
   resolve tree_twins [''dog'', ''z.png''] = Some (File ''z.png'' (Image 7 7))"
proof -
  have g: "generateVottEntries env0 [] 0 ''twins'' [(''cat'', [''y.png'']), (''dog'', [''z.png''])] =
    (\<lparr>entries =
        [\<lparr>Format = ''png'', Asset.ID = ''u'', Asset.Name = ''y.png'',
          Path = ''file:/home/user/twins/cat/y.png'',
          Size = \<lparr>Size.Width = 9, Size.Height = 9\<rparr>, State = 0, Asset.Type = 0,
          Label = ''cat''\<rparr>,
         \<lparr>Format = ''png'', Asset.ID = ''uu'', Asset.Name = ''z.png'',
          Path = ''file:/home/user/twins/dog/z.png'',
          Size = \<lparr>Size.Width = 7, Size.Height = 7\<rparr>, State = 0, Asset.Type = 0,
          Label = ''dog''\<rparr>],
      drawn = 2, opened = [[''cat'', ''y.png''], [''dog'', ''z.png'']]\<rparr>, None)"
    by (simp add: generateVottEntries_def env0_def tree_twins_def open_DecodeConfig_def
        imgRelativePath_def Ext_def TrimPrefix_def numeral_2_eq_2)
  show ?thesis
    unfolding g by (simp add: label_dirs_twins findImages_twins) (simp add: tree_twins_def)
qed

section \<open>Directories of the same base name\<close>

text \<open>
  Claim C10, as amended. When two directories below the root have the same base name and
  each lists at least one image, the map findImages returns has exactly one entry for
  the name; it holds the image list of the last directory of that name the walk visits,
  which is the second of the two or a later one (the second, when none of that name
  follows it). An image name that is not in that list is not in the output: the builder
  opens no path for the name under that label and builds no asset for it. The names of
  the list are built from the path of base name and file name, in whichever directory
  that is.
\<close>

theorem findImages_same_basename:
  assumes "fs e root = Some t"
    and "findImages e root = Returned labels"
    and "label_dirs e t = xs @ (p1, images1) # ys @ (p2, images2) # zs"
    and "Base p1 = Base p2"
    and "generateVottEntries e cs n root labels = (b, r)"
  shows "(\<exists>(q, kept) \<in> set ((p2, images2) # zs).
            Base q = Base p1 \<and>
            filter (\<lambda>(label, images). label = Base p1) labels = [(Base p1, kept)] \<and>
            (\<forall>f. f \<notin> set kept \<longrightarrow>
               [Base p1, f] \<notin> set (opened b) \<and>
               (\<forall>a \<in> set (entries b). \<not> (Label a = Base p1 \<and> Asset.Name a = f))) \<and>
            (\<forall>f \<in> set kept.
               r \<noteq> None \<or>
               [Base p1, f] \<in> set (opened b) \<and>
               (\<exists>a \<in> set (entries b).
                  Label a = Base p1 \<and> Asset.Name a = f \<and>
                  open_DecodeConfig e root [Base p1, f] =
                    Inr (Size.Width (Size a), Size.Height (Size a))))) \<and>
         ((\<forall>(q, images) \<in> set zs. Base q \<noteq> Base p2) \<longrightarrow>
            filter (\<lambda>(label, images). label = Base p1) labels = [(Base p1, images2)])"
proof -
  let ?P = "\<lambda>(q, images). Base q = Base p1"
  let ?tail = "(p2, images2) # filter ?P zs"
  have f: "filter ?P (label_dirs e t) = (filter ?P xs @ (p1, images1) # filter ?P ys) @ ?tail"
    unfolding assms(3) using assms(4) by simp
  have la: "last (filter ?P (label_dirs e t)) = last ?tail"
    unfolding f by (rule last_appendR) simp
  obtain q kept where qk: "last ?tail = (q, kept)" by (cases "last ?tail")
  have "last ?tail \<in> set ?tail" by (rule last_in_set) simp
  with qk have mem: "(q, kept) \<in> set ((p2, images2) # zs)" and bq: "Base q = Base p1"
    using assms(4) by auto
  have "(p1, images1) \<in> set (label_dirs e t)"
    unfolding assms(3) by simp
  from label_dirs_kept[OF assms(1,2) this] have m: "map_of labels (Base p1) = Some kept"
    by (simp only: la qk snd_conv)
  note d = findImages_distinct[OF assms(2)]
  from filter_key_single[OF d m] have
    one: "filter (\<lambda>(label, images). label = Base p1) labels = [(Base p1, kept)]" .
  have absent: "\<forall>f. f \<notin> set kept \<longrightarrow>
               [Base p1, f] \<notin> set (opened b) \<and>
               (\<forall>a \<in> set (entries b). \<not> (Label a = Base p1 \<and> Asset.Name a = f))"
    using dropped_is_absent[OF assms(5) d m] by blast
  have present: "\<forall>f \<in> set kept.
               r \<noteq> None \<or>
               [Base p1, f] \<in> set (opened b) \<and>
               (\<exists>a \<in> set (entries b).
                  Label a = Base p1 \<and> Asset.Name a = f \<and>
                  open_DecodeConfig e root [Base p1, f] =
                    Inr (Size.Width (Size a), Size.Height (Size a)))"
    using kept_is_built[OF assms(1,5) m] by blast
  have second: "filter (\<lambda>(label, images). label = Base p1) labels = [(Base p1, images2)]"
    if "\<forall>(q, images) \<in> set zs. Base q \<noteq> Base p2"
  proof -
    from that have "filter ?P zs = []"
      unfolding assms(4) by (auto simp: filter_empty_conv)
    with qk have "kept = images2" by simp
    with one show ?thesis by simp
  qed
  from mem bq one absent present second show ?thesis by blast
qed

text \<open>
  Claim C10, as amended, on \<open>twins\<close>: \<open>twins/a/cat\<close> holds \<open>x.png\<close>, \<open>twins/cat\<close>
  holds \<open>y.png\<close>, and \<open>twins/dog\<close> is visited after both; the result maps \<open>cat\<close> to
  \<open>[y.png]\<close> only, and nothing is opened or built for \<open>x.png\<close> under \<open>cat\<close>.
\<close>

theorem findImages_same_basename_witness:
  "fs env0 ''twins'' = Some tree_twins \<and>
   findImages env0 ''twins'' = Returned [(''cat'', [''y.png'']), (''dog'', [''z.png''])] \<and>
   label_dirs env0 tree_twins =
     [] @ ([''a'', ''cat''], [''x.png'']) # [] @ ([''cat''], [''y.png'']) # [([''dog''], [''z.png''])] \<and>
   Base [''a'', ''cat''] = Base [''cat''] \<and>
   Base [''dog''] \<noteq> Base [''cat''] \<and>
   filter (\<lambda>(label, images). label = ''cat'') [(''cat'', [''y.png'']), (''dog'', [''z.png''])] =
     [(''cat'', [''y.png''])] \<and>
   [''cat'', ''x.png''] \<notin> set (opened (fst (generateVottEntries env0 [] 0 ''twins''
                                     [(''cat'', [''y.png'']), (''dog'', [''z.png''])]))) \<and>
   (''cat'', ''x.png'') \<notin>
     set (map (\<lambda>a. (Label a, Asset.Name a))
            (entries (fst (generateVottEntries env0 [] 0 ''twins''
                             [(''cat'', [''y.png'']), (''dog'', [''z.png''])]))))"
proof -
  let ?g = "generateVottEntries env0 [] 0 ''twins'' [(''cat'', [''y.png'']), (''dog'', [''z.png''])]"
  have 1: "fs env0 ''twins'' = Some tree_twins" by (simp add: env0_def)
  have 3: "label_dirs env0 tree_twins =
     [] @ ([''a'', ''cat''], [''x.png'']) # [] @ ([''cat''], [''y.png'']) # [([''dog''], [''z.png''])]"
    by (simp add: label_dirs_twins)
  have 4: "Base [''a'', ''cat''] = Base [''cat'']" by (simp add: Base_def)
  have 5: "?g = (fst ?g, snd ?g)" by simp
  have 6: "\<forall>(q, images) \<in> set [([''dog''], [''z.png''])]. Base q \<noteq> Base [''cat'']"
    by (simp add: Base_def)
  have c: "Base [''a'', ''cat''] = ''cat''" by (simp add: Base_def)
  from findImages_same_basename[OF 1 findImages_twins 3 4 5] 6 have
    k: "filter (\<lambda>(label, images). label = ''cat'') [(''cat'', [''y.png'']), (''dog'', [''z.png''])] =
         [(''cat'', [''y.png''])]"
    unfolding c by blast
  from findImages_same_basename[OF 1 findImages_twins 3 4 5] have
    "\<exists>(q, kept) \<in> set [([''cat''], [''y.png'']), ([''dog''], [''z.png''])].
        [(''cat'', [''y.png''])] = [(''cat'', kept)] \<and>
        (\<forall>f. f \<notin> set kept \<longrightarrow>
           [''cat'', f] \<notin> set (opened (fst ?g)) \<and>
           (\<forall>a \<in> set (entries (fst ?g)). \<not> (Label a = ''cat'' \<and> Asset.Name a = f)))"
    unfolding c k by blast
  then have "\<forall>f. f \<notin> set [''y.png''] \<longrightarrow>
           [''cat'', f] \<notin> set (opened (fst ?g)) \<and>
           (\<forall>a \<in> set (entries (fst ?g)). \<not> (Label a = ''cat'' \<and> Asset.Name a = f))"
    by auto
  then have "[''cat'', ''x.png''] \<notin> set (opened (fst ?g)) \<and>
           (\<forall>a \<in> set (entries (fst ?g)). \<not> (Label a = ''cat'' \<and> Asset.Name a = ''x.png''))"
    by simp
  then have "[''cat'', ''x.png''] \<notin> set (opened (fst ?g)) \<and>
           (''cat'', ''x.png'') \<notin> set (map (\<lambda>a. (Label a, Asset.Name a)) (entries (fst ?g)))"
    by auto
  with 1 findImages_twins 3 4 k show ?thesis
    by (simp add: Base_def)
qed

text \<open>
  Claim C10 as stated fails on \<open>shadow\<close>: \<open>shadow/cat\<close> and \<open>shadow/pets/cat\<close> both
  hold a file \<^verbatim>\<open>x.png\<close>, of 1 by 1 and of 8 by 8. The map holds the list of
  \<open>pets/cat\<close>, visited later, and the one asset of the written document is the file of
  the other directory, \<open>shadow/cat/x.png\<close>, with its size of 1 by 1.
\<close>

theorem findImages_same_basename_counterexample:
  "label_dirs env0 tree_shadow = [([''cat''], [''x.png'']), ([''pets'', ''cat''], [''x.png''])] \<and>
   findImages env0 ''shadow'' = Returned [(''cat'', [''x.png''])] \<and>
   resolve tree_shadow [''cat'', ''x.png''] = Some (File ''x.png'' (Image 1 1)) \<and>
   resolve tree_shadow [''pets'', ''cat'', ''x.png''] = Some (File ''x.png'' (Image 8 8)) \<and>
   snd (main env0 [''shadow'']) = 0 \<and>
   opens (fst (main env0 [''shadow''])) = [[''cat'', ''x.png'']] \<and>
   map fst (writes (fst (main env0 [''shadow'']))) = [''vott-coco-annotations.json''] \<and>
   json_keys (json_member ''assets'' (snd (hd (writes (fst (main env0 [''shadow'']))))))
     = [''u''] \<and>
   json_member ''asset''
     (json_member ''u'' (json_member ''assets'' (snd (hd (writes (fst (main env0 [''shadow'']))))))) =
     JObj [(''format'', JStr ''png''), (''id'', JStr ''u''), (''name'', JStr ''x.png''),
           (''path'', JStr ''file:/home/user/shadow/cat/x.png''),
           (''size'', JObj [(''width'', JNum 1), (''height'', JNum 1)]),
           (''state'', JNum 0), (''type'', JNum 0), (''Label'', JStr ''cat'')]"
proof -
  let ?as = "[\<lparr>Format = ''png'', Asset.ID = ''u'', Asset.Name = ''x.png'',
                Path = ''file:/home/user/shadow/cat/x.png'',
                Size = \<lparr>Size.Width = 1, Size.Height = 1\<rparr>, State = 0, Asset.Type = 0,
                Label = ''cat''\<rparr>]"
  let ?D = "marshal_VottJsonModel (vott_model (uuid env0) 1 ?as [''cat''])"
  have g: "generateVottEntries env0 [] 0 ''shadow'' [(''cat'', [''x.png''])] =
    (\<lparr>entries = ?as, drawn = 1, opened = [[''cat'', ''x.png'']]\<rparr>, None)"
    by (simp add: generateVottEntries_def env0_def tree_shadow_def open_DecodeConfig_def
        imgRelativePath_def Ext_def TrimPrefix_def)
  have s: "range_seed env0 = (\<lambda>k. [])" "fp_Dir env0 = (\<lambda>p. ''.'')"
    "writeFile env0 = (\<lambda>p. None)"
    by (simp_all add: env0_def)
  have d: "isDirectory env0 ''shadow''" "isDirectory env0 ''.''"
    by (simp_all add: isDirectory_def env0_def tree_shadow_def)
  have x: "snd (main env0 [''shadow'']) = 0"
    by (simp add: main_def Let_def d s main_step2_def findImages_shadow g main_step3_def
        writeVottJSON_def ExitSuccesful_def)
  have o: "opens (fst (main env0 [''shadow''])) = [[''cat'', ''x.png'']]"
    by (simp add: main_def Let_def d s main_step2_def findImages_shadow g main_step3_def
        writeVottJSON_def opens_append opens_prints)
  have w: "writes (fst (main env0 [''shadow''])) = [(''vott-coco-annotations.json'', ?D)]"
    by (simp add: main_def Let_def d s main_step2_def findImages_shadow g main_step3_def
        writeVottJSON_def writes_append writes_prints OptionalAnnotationsFilenameDefault_def)
  have k: "json_keys (json_member ''assets'' ?D) = [''u'']"
    by (simp add: json_member_assets marshal_Assets_def vott_model_def env0_def
        json_string_ascii is_ascii_def)
  have a: "json_member ''asset'' (json_member ''u'' (json_member ''assets'' ?D)) =
     JObj [(''format'', JStr ''png''), (''id'', JStr ''u''), (''name'', JStr ''x.png''),
           (''path'', JStr ''file:/home/user/shadow/cat/x.png''),
           (''size'', JObj [(''width'', JNum 1), (''height'', JNum 1)]),
           (''state'', JNum 0), (''type'', JNum 0), (''Label'', JStr ''cat'')]"
    by (simp add: json_member_assets marshal_Assets_def vott_model_def env0_def member_def
        marshal_AssetDetail_def marshal_Asset_def marshal_Size_def
        json_string_ascii is_ascii_def)
  have r: "resolve tree_shadow [''cat'', ''x.png''] = Some (File ''x.png'' (Image 1 1))"
    "resolve tree_shadow [''pets'', ''cat'', ''x.png''] = Some (File ''x.png'' (Image 8 8))"
    by (simp_all add: tree_shadow_def)
  have w1: "map fst (writes (fst (main env0 [''shadow'']))) = [''vott-coco-annotations.json'']"
    unfolding w by simp
  have k1: "json_keys (json_member ''assets'' (snd (hd (writes (fst (main env0 [''shadow'']))))))
     = [''u'']"
    unfolding w using k by simp
  have a1: "json_member ''asset''
     (json_member ''u'' (json_member ''assets'' (snd (hd (writes (fst (main env0 [''shadow''])))))))
     = JObj [(''format'', JStr ''png''), (''id'', JStr ''u''), (''name'', JStr ''x.png''),
           (''path'', JStr ''file:/home/user/shadow/cat/x.png''),
           (''size'', JObj [(''width'', JNum 1), (''height'', JNum 1)]),
           (''state'', JNum 0), (''type'', JNum 0), (''Label'', JStr ''cat'')]"
    unfolding w using a by simp
  show ?thesis
    by (intro conjI) (rule label_dirs_shadow findImages_shadow r x o w1 k1 a1)+
qed

end
